theory Spec2Isabelle
  imports Main "HOL-Library.AList"
begin

section \<open>JavaScript strings and values\<close>

text \<open>
  Strings are character lists. The string primitives of the source
  (\<^verbatim>\<open>indexOf\<close>, \<^verbatim>\<open>charAt\<close>, \<^verbatim>\<open>substr\<close>, \<^verbatim>\<open>split\<close>) are written out with the
  results JavaScript gives at the borders: \<^verbatim>\<open>indexOf\<close> is \<open>-1\<close> when there is no
  occurrence, \<^verbatim>\<open>charAt\<close> is the empty string out of range, an array read out
  of range is \<^verbatim>\<open>undefined\<close>.
\<close>

datatype jsval = JUndefined | JString string

fun indexOf_from :: "string \<Rightarrow> string \<Rightarrow> nat \<Rightarrow> int" where
  "indexOf_from [] pat k = (if pat = [] then int k else - 1)"
| "indexOf_from (c # cs) pat k =
     (if take (length pat) (c # cs) = pat then int k else indexOf_from cs pat (Suc k))"

definition indexOf :: "string \<Rightarrow> string \<Rightarrow> int" where
  "indexOf s pat = indexOf_from s pat 0"

definition charAt :: "string \<Rightarrow> nat \<Rightarrow> string" where
  "charAt s i = (if i < length s then [s ! i] else [])"

fun split :: "char \<Rightarrow> string \<Rightarrow> string list" where
  "split sep [] = [[]]"
| "split sep (c # cs) =
     (if c = sep then [] # split sep cs
      else (let r = split sep cs in (c # hd r) # tl r))"

definition js_nth :: "string list \<Rightarrow> nat \<Rightarrow> jsval" where
  "js_nth xs i = (if i < length xs then JString (xs ! i) else JUndefined)"

text \<open>
  Objects written \<^verbatim>\<open>{}\<close> serve as maps in the source; a map of the model
  holds the keys such an object has of its own. The object also inherits
  the properties of \<^verbatim>\<open>Object.prototype\<close>, listed below as the engine of Node
  defines them. A read of one of these names, on an object without a key of
  that name, gives the inherited value: a function (for \<^verbatim>\<open>__proto__\<close>, the
  prototype object), which is truthy and is not a string. An assignment to
  one of them adds a key like any other assignment, except for \<^verbatim>\<open>__proto__\<close>:
  this name is an accessor, the object never gets a key of that name, and
  assigning it a value that is not an object (a string, \<^verbatim>\<open>undefined\<close>) does
  nothing.
\<close>

definition Object_prototype_names :: "string list" where
  "Object_prototype_names =
     [''constructor'', ''toString'', ''toLocaleString'', ''valueOf'', ''hasOwnProperty'',
      ''isPrototypeOf'', ''propertyIsEnumerable'', ''__defineGetter__'', ''__defineSetter__'',
      ''__lookupGetter__'', ''__lookupSetter__'', ''__proto__'']"

definition inherited :: "string \<Rightarrow> bool" where
  "inherited name = (name \<in> set Object_prototype_names)"

text \<open>\<^verbatim>\<open>obj[name] = v\<close> for a value \<open>v\<close> that is not an object.\<close>

definition assign :: "(string \<rightharpoonup> 'v) \<Rightarrow> string \<Rightarrow> 'v \<Rightarrow> (string \<rightharpoonup> 'v)" where
  "assign obj name v = (if name = ''__proto__'' then obj else obj(name \<mapsto> v))"

section \<open>Pattern matcher (Mapper)\<close>

type_synonym params = "string \<rightharpoonup> jsval"

text \<open>
  The result of \<^verbatim>\<open>parseUrl\<close>, \<^verbatim>\<open>matchString\<close> and \<^verbatim>\<open>match\<close>: a boolean or the
  object of the captured parameters.
\<close>

datatype mresult = MBool bool | MParams params

fun truthy :: "mresult \<Rightarrow> bool" where
  "truthy (MBool b) = b"
| "truthy (MParams p) = True"

text \<open>
  \<^verbatim>\<open>decodeURIComponent\<close> is a builtin of the language: it is a parameter
  \<open>dec\<close> of the model, \<open>None\<close> when it throws.
  \<^verbatim>\<open>try { params[paramName] = decodeURIComponent(param || '') }
     catch(err) { params[paramName] = param }\<close>
\<close>

definition capture :: "(string \<Rightarrow> string option) \<Rightarrow> jsval \<Rightarrow> jsval" where
  "capture dec param =
     (case dec (case param of JUndefined \<Rightarrow> [] | JString s \<Rightarrow> s) of
        Some v \<Rightarrow> JString v
      | None \<Rightarrow> param)"

text \<open>
  The loop of \<^verbatim>\<open>parseUrl\<close> over \<^verbatim>\<open>parts\<close>; \<open>k\<close> is \<^verbatim>\<open>i + start\<close>.
  \<open>None\<close> is the early \<^verbatim>\<open>return false\<close>. \<^verbatim>\<open>params\<close> starts as \<^verbatim>\<open>{}\<close> and
  both assignments give it a string or \<^verbatim>\<open>undefined\<close>, so a parameter named
  \<^verbatim>\<open>__proto__\<close> leaves no key.
\<close>

fun parseUrl_loop ::
  "(string \<Rightarrow> string option) \<Rightarrow> string list \<Rightarrow> string list \<Rightarrow> nat \<Rightarrow> params \<Rightarrow> params option"
where
  "parseUrl_loop dec [] urls k ps = Some ps"
| "parseUrl_loop dec (part # rest) urls k ps =
     (let param = js_nth urls k in
      if charAt part 0 = '':'' then
        parseUrl_loop dec rest urls (Suc k) (assign ps (drop 1 part) (capture dec param))
      else if JString part \<noteq> param then None
      else parseUrl_loop dec rest urls (Suc k) ps)"

definition strip_query :: "string \<Rightarrow> string" where
  "strip_query reqUrl =
     (let idx = indexOf reqUrl ''?'' in
      if idx > 0 then take (nat idx) reqUrl else reqUrl)"

definition parseUrl :: "(string \<Rightarrow> string option) \<Rightarrow> string \<Rightarrow> string \<Rightarrow> mresult" where
  "parseUrl dec expression reqUrl0 =
     (let reqUrl = strip_query reqUrl0;
          parts = split CHR ''/'' expression;
          start = (if charAt expression 0 = ''/'' then 0 else 1);
          urls = split CHR ''/'' reqUrl
      in case parseUrl_loop dec parts urls start Map.empty of
           None \<Rightarrow> MBool False
         | Some ps \<Rightarrow> MParams ps)"

text \<open>
  \<^verbatim>\<open>_.extend(tar, obj)\<close>, for objects whose values are not objects: every key
  of \<open>obj\<close> is assigned to \<open>tar\<close>.
\<close>

definition extend_obj :: "(string \<rightharpoonup> 'v) \<Rightarrow> (string \<rightharpoonup> 'v) \<Rightarrow> (string \<rightharpoonup> 'v)" where
  "extend_obj tar obj = (\<lambda>k. if k = ''__proto__'' then tar k else (tar ++ obj) k)"

text \<open>
  \<^verbatim>\<open>matchString(req, isHandler, expression)\<close> reads \<^verbatim>\<open>req.url\<close> and, on a
  parameterized match, extends \<^verbatim>\<open>req.params\<close>: it takes the url and the
  parameters and returns its result with the new parameters.
\<close>

definition matchString ::
  "(string \<Rightarrow> string option) \<Rightarrow> string \<Rightarrow> params \<Rightarrow> bool \<Rightarrow> string \<Rightarrow> mresult \<times> params"
where
  "matchString dec reqUrl reqParams isHandler expression =
     (if indexOf expression ''/:'' < 0 then
        (let idx = indexOf reqUrl expression in
         if isHandler then
           (if idx = 0 \<or> idx = 1 then
              (let lastChar = charAt reqUrl (nat idx + length expression) in
               (MBool (lastChar = [] \<or> lastChar = ''/'' \<or> lastChar = ''?''), reqParams))
            else (MBool False, reqParams))
         else (MBool (idx > - 1), reqParams))
      else
        (let ps = parseUrl dec expression reqUrl in
         case ps of
           MParams p \<Rightarrow> (ps, extend_obj reqParams p)
         | MBool b \<Rightarrow> (ps, reqParams)))"


text \<open>
  What the specification calls an occurrence of a literal at an offset of
  the path: the literal is the piece of the path that starts there.
\<close>

definition occurs_at :: "string \<Rightarrow> string \<Rightarrow> nat \<Rightarrow> bool" where
  "occurs_at pat s k = (k + length pat \<le> length s \<and> take (length pat) (drop k s) = pat)"

section \<open>Settings\<close>

record settings =
  root :: string
  home :: string
  listDir :: bool
  cache :: bool
  debug :: bool
  templateCache :: bool
  showError :: bool
  defaultPage :: string
  notFound404 :: string
  sessionTimeout :: int
  sessionDir :: string
  sessionDomain :: string
  sessionLength :: int
  uploadDir :: string
  serverID :: string

text \<open>
  The defaults of the source; \<^verbatim>\<open>root\<close> is the working directory of the
  process and \<^verbatim>\<open>uploadDir\<close> the temporary directory of the system, both
  given from outside. \<^verbatim>\<open>serverID\<close> is not among the defaults: the empty string
  stands for the absent key, which the source reads as \<^verbatim>\<open>Settings.serverID || ''\<close>.
\<close>

definition Settings :: "string \<Rightarrow> string \<Rightarrow> settings" where
  "Settings cwd tmpDir =
     \<lparr> root = cwd, home = ''./'', listDir = False, cache = True, debug = True,
       templateCache = True, showError = True, defaultPage = ''index.html'',
       notFound404 = [], sessionTimeout = 1440000, sessionDir = [],
       sessionDomain = [], sessionLength = 36, uploadDir = tmpDir, serverID = [] \<rparr>"

section \<open>Sessions and the memory store\<close>

datatype json =
  JNull | JBool bool | JNum int | JStr string | JArr "json list" | JObj "(string \<times> json) list"

text \<open>
  A session object: the reserved key \<^verbatim>\<open>__lastAccessTime\<close> (\<open>None\<close> when the
  object has no such key) and the other keys. \<^verbatim>\<open>{}\<close> is \<open>empty_session\<close>.
\<close>

record session =
  lastAccessTime :: "int option"
  entries :: "string \<rightharpoonup> json"

definition empty_session :: session where
  "empty_session = \<lparr> lastAccessTime = None, entries = Map.empty \<rparr>"

text \<open>
  What a session store hands to the callback of \<^verbatim>\<open>get\<close>: a session object,
  or another value, from which no truthy \<^verbatim>\<open>__lastAccessTime\<close> can be read (a
  falsy value, or a function or prototype object the store object inherits).
\<close>

datatype sval = SObj session | SOther

text \<open>
  The state the functions below share. \<open>list\<close> is the variable \<^verbatim>\<open>list\<close> of
  \<^verbatim>\<open>MemoryStore\<close> (\<open>None\<close> while it is \<^verbatim>\<open>undefined\<close>), an object from session
  ids to sessions, kept as an association list in insertion order.
  \<open>intervals\<close> collects the periods handed to \<^verbatim>\<open>setInterval(clearHandler, _)\<close>.
  The clock and the random generator are outside the program: \<open>clk n\<close> is
  what the \<open>n\<close>-th evaluation of \<^verbatim>\<open>new Date()\<close> reads and \<open>rnd n\<close> is
  \<^verbatim>\<open>Math.random() * len | 0\<close> at the \<open>n\<close>-th call; \<open>tick\<close> and \<open>draws\<close> count
  the evaluations so far. \<open>templatePool\<close> and \<open>defaultModel\<close> are the
  variables of \<^verbatim>\<open>Template\<close>; \<open>readLog\<close> lists the paths handed to
  \<^verbatim>\<open>fs.readFile\<close> for templates, and \<open>pending\<close> the template names whose read
  has been started and has not called back yet.
\<close>

type_synonym tmodel = "string \<rightharpoonup> json"

record world =
  list :: "(string \<times> session) list option"
  intervals :: "int list"
  tick :: nat
  draws :: nat
  templatePool :: "string \<rightharpoonup> string"
  defaultModel :: "tmodel option"
  pending :: "string list"
  readLog :: "string list"

text \<open>The state of a server that has not served anything yet.\<close>

definition new_world :: world where
  "new_world =
     \<lparr> list = None, intervals = [], tick = 0, draws = 0, templatePool = Map.empty,
       defaultModel = None, pending = [], readLog = [] \<rparr>"

text \<open>
  What the program can throw by itself or through the platform: a TypeError
  (a property of \<^verbatim>\<open>undefined\<close> is read), and the error of \<^verbatim>\<open>setHeader\<close> on a
  response whose header block is written.
\<close>

datatype error = TypeError | HeadersSent

definition Date_now :: "(nat \<Rightarrow> int) \<Rightarrow> world \<Rightarrow> int \<times> world" where
  "Date_now clk w = (clk (tick w), w\<lparr>tick := Suc (tick w)\<rparr>)"

text \<open>The entries of the store; none while \<^verbatim>\<open>list\<close> is undefined.\<close>

definition stored :: "world \<Rightarrow> (string \<times> session) list" where
  "stored w = (case list w of Some l \<Rightarrow> l | None \<Rightarrow> [])"

definition MemoryStore_init :: "settings \<Rightarrow> world \<Rightarrow> world" where
  "MemoryStore_init st w =
     w\<lparr>list := Some [], intervals := intervals w @ [sessionTimeout st * 4]\<rparr>"

definition ensure_list :: "settings \<Rightarrow> world \<Rightarrow> world" where
  "ensure_list st w = (case list w of None \<Rightarrow> MemoryStore_init st w | Some l \<Rightarrow> w)"

text \<open>
  \<^verbatim>\<open>get(sid, cb)\<close>: the value handed to \<^verbatim>\<open>cb\<close> and the store after the call.
  \<^verbatim>\<open>list\<close> is written \<^verbatim>\<open>{}\<close>: for an id that names a property of
  \<^verbatim>\<open>Object.prototype\<close> and is no key of \<^verbatim>\<open>list\<close>, the test \<^verbatim>\<open>!list[sid]\<close> reads the
  inherited value and fails, nothing is added, and \<^verbatim>\<open>cb\<close> gets the inherited
  value.
\<close>

definition MemoryStore_get :: "settings \<Rightarrow> string \<Rightarrow> world \<Rightarrow> sval \<times> world" where
  "MemoryStore_get st sid w0 =
     (let w = ensure_list st w0;
          l = stored w
      in case map_of l sid of
           Some s \<Rightarrow> (SObj s, w)
         | None \<Rightarrow>
             if inherited sid then (SOther, w)
             else (SObj empty_session, w\<lparr>list := Some (AList.update sid empty_session l)\<rparr>))"

text \<open>
  \<^verbatim>\<open>set(sid, session)\<close>. With the id \<^verbatim>\<open>__proto__\<close> the assignment adds no key:
  it makes the session the prototype of \<^verbatim>\<open>list\<close>. The model keeps that
  session under the id \<^verbatim>\<open>__proto__\<close>, where \<^verbatim>\<open>get\<close> finds it and \<^verbatim>\<open>del\<close> leaves
  it, as the code does. The keys \<^verbatim>\<open>list\<close> inherits from such a prototype are
  not followed: the properties of the memory store below are stated for a
  \<^verbatim>\<open>list\<close> without an entry \<^verbatim>\<open>__proto__\<close>.
\<close>

definition MemoryStore_set :: "settings \<Rightarrow> string \<Rightarrow> session \<Rightarrow> world \<Rightarrow> world" where
  "MemoryStore_set st sid s w0 =
     (let w = ensure_list st w0;
          l = stored w
      in w\<lparr>list := Some (AList.update sid s l)\<rparr>)"

text \<open>
  \<^verbatim>\<open>delete list[sid]\<close> throws a TypeError while \<^verbatim>\<open>list\<close> is undefined, and
  removes nothing for \<^verbatim>\<open>__proto__\<close>, which is no key of \<^verbatim>\<open>list\<close>.
\<close>

definition MemoryStore_del :: "string \<Rightarrow> world \<Rightarrow> error + world" where
  "MemoryStore_del sid w =
     (case list w of
        None \<Rightarrow> Inl TypeError
      | Some l \<Rightarrow> Inr (if sid = ''__proto__'' then w else w\<lparr>list := Some (AList.delete sid l)\<rparr>))"

text \<open>
  The variable \<^verbatim>\<open>SessionStore\<close> holds \<^verbatim>\<open>MemoryStore\<close>, or \<^verbatim>\<open>FileStore\<close> (one file
  for each session) when \<^verbatim>\<open>Settings.sessionDir\<close> is set, or the store the
  embedding program has assigned to \<^verbatim>\<open>sessionStore\<close>. The functions that use
  it take the store as their parameter \<open>S\<close>: \<open>st_get\<close> is what \<^verbatim>\<open>get\<close> hands
  to its callback, with the state in which the callback runs; \<open>st_set\<close> and
  \<open>st_del\<close> are \<^verbatim>\<open>set\<close> and \<^verbatim>\<open>del\<close>; \<open>st_touch\<close> is what the store sees of
  an assignment to the object \<^verbatim>\<open>get\<close> has handed over. The memory store hands
  over the object it holds, so the assignment shows in the store; a store
  that hands over a copy sees nothing of it. The record describes a store
  whose \<^verbatim>\<open>get\<close> calls its callback once and whose \<^verbatim>\<open>set\<close> does not throw, as
  it is with both stores of the source.
\<close>

record store =
  st_get :: "string \<Rightarrow> world \<Rightarrow> sval \<times> world"
  st_set :: "string \<Rightarrow> session \<Rightarrow> world \<Rightarrow> world"
  st_del :: "string \<Rightarrow> world \<Rightarrow> error + world"
  st_touch :: "string \<Rightarrow> session \<Rightarrow> world \<Rightarrow> world"

definition MemoryStore :: "settings \<Rightarrow> store" where
  "MemoryStore st =
     \<lparr> st_get = MemoryStore_get st,
       st_set = MemoryStore_set st,
       st_del = MemoryStore_del,
       st_touch = (\<lambda>k s w. w\<lparr>list := map_option (AList.update k s) (list w)\<rparr>) \<rparr>"

text \<open>
  The test of \<^verbatim>\<open>clearHandler\<close>, with the precedence of the language:
  \<^verbatim>\<open>a && (b || 0 <= c)\<close> is \<^verbatim>\<open>a && (b || (0 <= c))\<close>. The clock is read
  only when the time stamp is truthy (present and not 0).
\<close>

definition clear_isValid :: "(nat \<Rightarrow> int) \<Rightarrow> settings \<Rightarrow> session \<Rightarrow> world \<Rightarrow> bool \<times> world" where
  "clear_isValid clk st s w =
     (case lastAccessTime s of
        None \<Rightarrow> (False, w)
      | Some t \<Rightarrow>
          if t = 0 then (False, w)
          else (let (now, w') = Date_now clk w
                in (if now - t \<noteq> 0 then True else 0 \<le> sessionTimeout st * 2, w')))"

text \<open>
  \<^verbatim>\<open>for (var sid in list) { ... !isValid && del(sid) }\<close>, over the keys the
  object has when the loop starts.
\<close>

fun clear_loop :: "(nat \<Rightarrow> int) \<Rightarrow> settings \<Rightarrow> string list \<Rightarrow> world \<Rightarrow> error + world" where
  "clear_loop clk st [] w = Inr w"
| "clear_loop clk st (sid # sids) w =
     (case map_of (stored w) sid of
        None \<Rightarrow> clear_loop clk st sids w
      | Some s \<Rightarrow>
          (let (valid, w') = clear_isValid clk st s w in
           if valid then clear_loop clk st sids w'
           else (case MemoryStore_del sid w' of
                   Inl e \<Rightarrow> Inl e
                 | Inr w'' \<Rightarrow> clear_loop clk st sids w'')))"

definition clearHandler :: "(nat \<Rightarrow> int) \<Rightarrow> settings \<Rightarrow> world \<Rightarrow> error + world" where
  "clearHandler clk st w =
     clear_loop clk st (map fst (stored w)) w"

section \<open>Requests and responses\<close>

text \<open>
  The response object of the platform, as far as the program uses it: the
  status, the headers, whether the header block has been written
  (\<^verbatim>\<open>headersSent\<close>, true from \<^verbatim>\<open>writeHead\<close> on), the data written, whether
  \<^verbatim>\<open>end\<close> has run, and the array \<^verbatim>\<open>res.cookies\<close> the program adds (\<open>None\<close>
  while it is undefined). The empty \<open>charset\<close> stands for the unset key.
\<close>

datatype hval = HStr string | HArr "string list"

record response =
  statusCode :: nat
  resHeaders :: "string \<rightharpoonup> hval"
  headersSent :: bool
  charset :: string
  written :: string
  finished :: bool
  res_cookies :: "string list option"

definition fresh_response :: response where
  "fresh_response =
     \<lparr> statusCode = 200, resHeaders = Map.empty, headersSent = False, charset = [],
       written = [], finished = False, res_cookies = None \<rparr>"

record SessionParser =
  sid :: string
  val :: session

record request =
  url :: string
  headers :: "string \<rightharpoonup> string"
  params :: params
  req_cookies :: "(string \<rightharpoonup> string) option"
  req_body :: "json option"
  req_files :: "(string \<times> string) list option"
  req_session :: "SessionParser option"
  stream :: string

text \<open>
  \<^verbatim>\<open>Cookie(name, value, options)\<close>, called as \<^verbatim>\<open>res.cookie\<close> with at least two
  arguments; \<open>value = None\<close> is \<^verbatim>\<open>null\<close>. \<open>toGMTString\<close> formats a date and
  belongs to the platform. An option that is falsy (the empty string, 0,
  false) adds nothing.
\<close>

record cookie_options =
  expires :: "int option"
  path :: string
  domain :: string
  secure :: bool
  httponly :: bool

definition Cookie ::
  "(int \<Rightarrow> string) \<Rightarrow> string \<Rightarrow> string option \<Rightarrow> cookie_options \<Rightarrow> response \<Rightarrow> response"
where
  "Cookie toGMTString name value options res =
     (let cookies = (case res_cookies res of None \<Rightarrow> [] | Some cs \<Rightarrow> cs);
          setStr0 = name @ ''='' @ (case value of None \<Rightarrow> [] | Some v \<Rightarrow> v);
          setStr1 =
            (case value of
               None \<Rightarrow> setStr0 @ ''; expires=Thu, 01 Jan 1970 00:00:00 GMT''
             | Some v \<Rightarrow>
                 (case expires options of
                    None \<Rightarrow> setStr0
                  | Some t \<Rightarrow> if t \<noteq> 0 then setStr0 @ ''; expires='' @ toGMTString t else setStr0));
          setStr2 = (if path options \<noteq> [] then setStr1 @ ''; path='' @ path options else setStr1);
          setStr3 = (if domain options \<noteq> [] then setStr2 @ ''; domain='' @ domain options else setStr2);
          setStr4 = (if secure options then setStr3 @ ''; secure'' else setStr3);
          setStr5 = (if httponly options then setStr4 @ ''; httponly'' else setStr4)
      in res\<lparr>res_cookies := Some (cookies @ [setStr5])\<rparr>)"

section \<open>Session lifecycle (SessionParser)\<close>

definition CHARS :: string where
  "CHARS = ''0123456789abcdefghijklmnopqrstuvwxyz''"

text \<open>\<^verbatim>\<open>CHARS[k]\<close> appended to a string: out of range it appends \<^verbatim>\<open>undefined\<close>.\<close>

definition CHARS_at :: "nat \<Rightarrow> string" where
  "CHARS_at k = (if k < length CHARS then [CHARS ! k] else ''undefined'')"

text \<open>\<^verbatim>\<open>n.toString(36)\<close> for an integer \<open>n\<close>.\<close>

fun digits36 :: "nat \<Rightarrow> string" where
  "digits36 n = (if n < 36 then [CHARS ! n] else digits36 (n div 36) @ [CHARS ! (n mod 36)])"

definition toString36 :: "int \<Rightarrow> string" where
  "toString36 i = (if i < 0 then CHR ''-'' # digits36 (nat (- i)) else digits36 (nat i))"

text \<open>\<open>n\<close> random characters, drawn one after the other.\<close>

definition random_chars :: "(nat \<Rightarrow> nat) \<Rightarrow> nat \<Rightarrow> world \<Rightarrow> string \<times> world" where
  "random_chars rnd n w =
     (concat (map (\<lambda>j. CHARS_at (rnd (draws w + j))) [0..<n]), w\<lparr>draws := draws w + n\<rparr>)"

text \<open>
  \<^verbatim>\<open>newID(appendLen)\<close>; \<open>appendLen = 0\<close> is also the call without an argument.
\<close>

definition newID :: "(nat \<Rightarrow> int) \<Rightarrow> (nat \<Rightarrow> nat) \<Rightarrow> settings \<Rightarrow> nat \<Rightarrow> world \<Rightarrow> string \<times> world" where
  "newID clk rnd st appendLen w0 =
     (let (now, w) = Date_now clk w0;
          sid = toString36 now
      in if appendLen \<noteq> 0 then
           (let sid1 = sid @ serverID st;
                (cs, w') = random_chars rnd appendLen w
            in (sid1 @ cs, w'))
         else
           (let sid1 = sid @ ''-'' @ serverID st;
                (cs, w') = random_chars rnd (nat (sessionLength st - int (length sid1))) w
            in (sid1 @ cs, w')))"

definition create :: "(nat \<Rightarrow> int) \<Rightarrow> (nat \<Rightarrow> nat) \<Rightarrow> settings \<Rightarrow> world \<Rightarrow> SessionParser \<times> world" where
  "create clk rnd st w0 =
     (let (id, w1) = newID clk rnd st 0 w0;
          (now, w2) = Date_now clk w1
      in (\<lparr> sid = id, val = \<lparr> lastAccessTime = Some now, entries = Map.empty \<rparr> \<rparr>, w2))"

text \<open>
  The three results of \<^verbatim>\<open>init\<close> are the session parser (\<^verbatim>\<open>req.session\<close>), the
  response and the shared state; when it returns them, \<^verbatim>\<open>cb\<close> has been called.
\<close>

definition setSession ::
  "(nat \<Rightarrow> int) \<Rightarrow> (nat \<Rightarrow> nat) \<Rightarrow> (int \<Rightarrow> string) \<Rightarrow> settings \<Rightarrow> response \<Rightarrow> world
     \<Rightarrow> SessionParser \<times> response \<times> world"
where
  "setSession clk rnd toGMTString st res w =
     (let (self, w') = create clk rnd st w;
          res' = Cookie toGMTString ''_wsid'' (Some (sid self))
                   \<lparr> expires = None, path = ''/'', domain = sessionDomain st,
                     secure = False, httponly = True \<rparr> res
      in (self, res', w'))"

text \<open>
  \<^verbatim>\<open>session && session.__lastAccessTime &&
     (+new Date() - session.__lastAccessTime <= Settings.sessionTimeout)\<close>
  for a session object: the first test holds, and the clock is read only
  when the time stamp is truthy (present and not 0).
\<close>

definition isValid :: "(nat \<Rightarrow> int) \<Rightarrow> settings \<Rightarrow> session \<Rightarrow> world \<Rightarrow> bool \<times> world" where
  "isValid clk st s w =
     (case lastAccessTime s of
        None \<Rightarrow> (False, w)
      | Some t \<Rightarrow>
          if t = 0 then (False, w)
          else (let (now, w') = Date_now clk w in (now - t \<le> sessionTimeout st, w')))"

text \<open>
  The branch of \<^verbatim>\<open>getSession\<close> for a session that is not valid:
  \<^verbatim>\<open>SessionStore.del(sidVal); setSession()\<close>.
\<close>

definition resetSession ::
  "store \<Rightarrow> (nat \<Rightarrow> int) \<Rightarrow> (nat \<Rightarrow> nat) \<Rightarrow> (int \<Rightarrow> string) \<Rightarrow> settings \<Rightarrow> string \<Rightarrow> response
     \<Rightarrow> world \<Rightarrow> error + SessionParser \<times> response \<times> world"
where
  "resetSession S clk rnd toGMTString st sidVal res w =
     (case st_del S sidVal w of
        Inl e \<Rightarrow> Inl e
      | Inr w2 \<Rightarrow> Inr (setSession clk rnd toGMTString st res w2))"

text \<open>
  \<^verbatim>\<open>getSession(session)\<close>, the callback of \<^verbatim>\<open>SessionStore.get\<close>. A value that is
  no session object is not valid, and the clock is not read for it. In the
  valid branch \<^verbatim>\<open>self.val\<close> is the very object the store has handed over, and
  the new time stamp is assigned to that object.
\<close>

definition getSession ::
  "store \<Rightarrow> (nat \<Rightarrow> int) \<Rightarrow> (nat \<Rightarrow> nat) \<Rightarrow> (int \<Rightarrow> string) \<Rightarrow> settings \<Rightarrow> string \<Rightarrow> response
     \<Rightarrow> sval \<Rightarrow> world \<Rightarrow> error + SessionParser \<times> response \<times> world"
where
  "getSession S clk rnd toGMTString st sidVal res v w0 =
     (case v of
        SOther \<Rightarrow> resetSession S clk rnd toGMTString st sidVal res w0
      | SObj s \<Rightarrow>
          (let (valid, w1) = isValid clk st s w0 in
           if valid then
             (let (now, w2) = Date_now clk w1;
                  s' = s\<lparr>lastAccessTime := Some now\<rparr>
              in Inr (\<lparr> sid = sidVal, val = s' \<rparr>, res, st_touch S sidVal s' w2))
           else resetSession S clk rnd toGMTString st sidVal res w1))"

definition init ::
  "store \<Rightarrow> (nat \<Rightarrow> int) \<Rightarrow> (nat \<Rightarrow> nat) \<Rightarrow> (int \<Rightarrow> string) \<Rightarrow> settings \<Rightarrow> request \<Rightarrow> response
     \<Rightarrow> world \<Rightarrow> error + SessionParser \<times> response \<times> world"
where
  "init S clk rnd toGMTString st req res w =
     (case req_cookies req of
        None \<Rightarrow> Inl TypeError
      | Some cookies \<Rightarrow>
          (case cookies ''_wsid'' of
             None \<Rightarrow> Inr (setSession clk rnd toGMTString st res w)
           | Some sidVal \<Rightarrow>
               if sidVal = [] \<or> int (length sidVal) \<noteq> sessionLength st then
                 Inr (setSession clk rnd toGMTString st res w)
               else
                 (let (v, w') = st_get S sidVal w
                  in getSession S clk rnd toGMTString st sidVal res v w')))"

text \<open>\<^verbatim>\<open>update\<close>: \<^verbatim>\<open>SessionStore.set(self.sid, self.val)\<close>.\<close>

definition update :: "store \<Rightarrow> SessionParser \<Rightarrow> world \<Rightarrow> world" where
  "update S self w = st_set S (sid self) (val self) w"

section \<open>The platform\<close>

text \<open>
  What the program takes from the language, from Node and from the libraries
  it loads is a parameter of the model: the clock and the random generator,
  \<^verbatim>\<open>decodeURIComponent\<close>, \<^verbatim>\<open>JSON.parse\<close> and \<^verbatim>\<open>qs.parse\<close> (\<open>None\<close> when they
  throw), the parsing and printing of dates (\<open>None\<close> for an invalid date),
  \<^verbatim>\<open>path.join\<close>, \<^verbatim>\<open>mime.lookup\<close>, the template engine, the multipart parser
  (\<open>None\<close> when it reports an error), the file system (\<open>None\<close> for an
  error) and the text \<open>proto_string name\<close> that the property \<open>name\<close> of
  \<^verbatim>\<open>Object.prototype\<close> is converted to where a string is needed.

  The template engine is called on the template text and on the object
  \<^verbatim>\<open>params\<close>, which \<^verbatim>\<open>render\<close> makes from the default model and the model of
  the call (\<^verbatim>\<open>Object.create(defaultModel)\<close> extended by the model, or the
  model itself when there is no default model). \<open>engineFunc\<close> takes the
  text, the default model and the model, and gives the rendering, or the
  text \<^verbatim>\<open>JSON.stringify(err)\<close> of the error thrown.
\<close>

record fstat =
  isFile :: bool
  isDirectory :: bool
  mtime :: int

datatype rendering = Rendered string | RenderError string

record platform =
  clock :: "nat \<Rightarrow> int"
  random :: "nat \<Rightarrow> nat"
  decodeURIComponent :: "string \<Rightarrow> string option"
  JSON_parse :: "string \<Rightarrow> json option"
  qs_parse :: "string \<Rightarrow> json option"
  Date_parse :: "string \<Rightarrow> int option"
  toUTCString :: "int \<Rightarrow> string"
  path_join :: "string \<Rightarrow> string \<Rightarrow> string"
  mime_lookup :: "string \<Rightarrow> string"
  engineFunc :: "string \<Rightarrow> tmodel option \<Rightarrow> tmodel option \<Rightarrow> rendering"
  form_parse :: "string \<Rightarrow> request \<Rightarrow> ((string \<times> json) list \<times> (string \<times> string) list) option"
  fs_stat :: "string \<Rightarrow> fstat option"
  fs_exists :: "string \<Rightarrow> bool"
  fs_readFile :: "string \<Rightarrow> string option"
  proto_string :: "string \<Rightarrow> string"

section \<open>Writing the response\<close>

text \<open>
  \<^verbatim>\<open>setHeader\<close> and \<^verbatim>\<open>writeHead\<close> of the platform. Once \<^verbatim>\<open>res.end\<close> has run
  the program has replaced both by a function that only logs. Before that,
  \<^verbatim>\<open>setHeader\<close> throws when the header block is written. Header names are
  kept as the program writes them.
\<close>

definition setHeader :: "string \<Rightarrow> hval \<Rightarrow> response \<Rightarrow> error + response" where
  "setHeader name v res =
     (if finished res then Inr res
      else if headersSent res then Inl HeadersSent
      else Inr (res\<lparr>resHeaders := (resHeaders res)(name \<mapsto> v)\<rparr>))"

definition writeHead :: "nat \<Rightarrow> (string \<times> hval) list \<Rightarrow> response \<Rightarrow> response" where
  "writeHead status hs res =
     (if finished res then res
      else res\<lparr>statusCode := status, resHeaders := resHeaders res ++ map_of hs,
               headersSent := True\<rparr>)"

definition header_truthy :: "hval option \<Rightarrow> bool" where
  "header_truthy h = (case h of None \<Rightarrow> False | Some (HStr s) \<Rightarrow> s \<noteq> [] | Some (HArr xs) \<Rightarrow> True)"

text \<open>
  \<^verbatim>\<open>res.end\<close> as \<^verbatim>\<open>requestHandler\<close> replaces it: the default content type
  and the cookies are added while the header block is not written, the
  \<^verbatim>\<open>end\<close> of the platform writes the data (it does nothing on a response that
  has ended), and the session of the request is stored.
\<close>

definition res_end :: "store \<Rightarrow> request \<Rightarrow> string \<Rightarrow> response \<Rightarrow> world \<Rightarrow> response \<times> world" where
  "res_end S req data res w =
     (let r1 = (if \<not> headersSent res \<and> \<not> header_truthy (resHeaders res ''Content-Type'') then
                  res\<lparr>resHeaders := (resHeaders res)(''Content-Type'' \<mapsto>
                         HStr (''text/html; charset='' @
                               (if charset res \<noteq> [] then charset res else ''utf-8'')))\<rparr>
                else res);
          r2 = (if \<not> headersSent res then
                  (case res_cookies r1 of
                     None \<Rightarrow> r1
                   | Some cs \<Rightarrow>
                       if cs \<noteq> [] then r1\<lparr>resHeaders := (resHeaders r1)(''Set-Cookie'' \<mapsto> HArr cs)\<rparr>
                       else r1)
                else r1);
          r3 = (if finished r2 then r2
                else r2\<lparr>written := written r2 @ data, finished := True, headersSent := True\<rparr>);
          w' = (case req_session req of None \<Rightarrow> w | Some sp \<Rightarrow> update S sp w)
      in (r3, w'))"

text \<open>\<^verbatim>\<open>res.type(type)\<close>; the empty result of \<^verbatim>\<open>mime.lookup\<close> is the falsy one.\<close>

definition res_type :: "platform \<Rightarrow> string \<Rightarrow> response \<Rightarrow> response" where
  "res_type P t res =
     (if t \<noteq> [] \<and> \<not> headersSent res then
        res\<lparr>resHeaders := (resHeaders res)(''Content-Type'' \<mapsto>
               HStr ((if mime_lookup P t \<noteq> [] then mime_lookup P t else ''text/plain'') @
                     ''; charset='' @ (if charset res \<noteq> [] then charset res else ''utf-8'')))\<rparr>
      else res)"

text \<open>
  \<^verbatim>\<open>writeFile(res, fullPath)\<close>: when the read fails the error is logged and
  nothing is written, so the response is left open.
\<close>

definition writeFile ::
  "platform \<Rightarrow> store \<Rightarrow> request \<Rightarrow> string \<Rightarrow> response \<Rightarrow> world \<Rightarrow> response \<times> world"
where
  "writeFile P S req fullPath res w =
     (case fs_readFile P fullPath of
        None \<Rightarrow> (res, w)
      | Some data \<Rightarrow> res_end S req data (writeHead 200 [] (res_type P fullPath res)) w)"

text \<open>\<^verbatim>\<open>res.redirect(url, status)\<close>; \<open>status = 0\<close> is the call without a status.\<close>

definition redirect ::
  "store \<Rightarrow> request \<Rightarrow> string \<Rightarrow> nat \<Rightarrow> response \<Rightarrow> world \<Rightarrow> error + response \<times> world"
where
  "redirect S req location status res w =
     (case setHeader ''Location'' (HStr location)
             (res\<lparr>statusCode := (if status \<noteq> 0 then status else 302)\<rparr>) of
        Inl e \<Rightarrow> Inl e
      | Inr r \<Rightarrow> Inr (res_end S req [] r w))"

definition write403 :: "store \<Rightarrow> request \<Rightarrow> response \<Rightarrow> world \<Rightarrow> response \<times> world" where
  "write403 S req res w =
     res_end S req ''Access forbidden!''
       (writeHead 403 [(''Content-Type'', HStr ''text/html'')] res) w"

section \<open>Template cache\<close>

definition template_path :: "platform \<Rightarrow> settings \<Rightarrow> string \<Rightarrow> string" where
  "template_path P st filename =
     path_join P (if charAt filename 0 = ''/'' then root st else home st) filename"

text \<open>
  \<^verbatim>\<open>templatePool\<close> is written \<^verbatim>\<open>{}\<close>. \<open>pool_own\<close> is the text it holds under a
  key of its own, and \<open>pool_put\<close> the assignment \<^verbatim>\<open>templatePool[filename] = tmpl\<close>
  of a text.
\<close>

definition pool_own :: "world \<Rightarrow> string \<Rightarrow> string option" where
  "pool_own w name = (if name = ''__proto__'' then None else templatePool w name)"

definition pool_put :: "string \<Rightarrow> string \<Rightarrow> world \<Rightarrow> world" where
  "pool_put filename tmpl w = w\<lparr>templatePool := assign (templatePool w) filename tmpl\<rparr>"

text \<open>
  \<^verbatim>\<open>Settings.templateCache && templatePool[filename]\<close>: an empty text in the
  pool is falsy, like a missing one; for a name the pool has no key for and
  inherits, the value read is the inherited one, which is truthy.
\<close>

definition in_cache :: "settings \<Rightarrow> world \<Rightarrow> string \<Rightarrow> bool" where
  "in_cache st w filename =
     (templateCache st \<and> (case pool_own w filename of None \<Rightarrow> inherited filename | Some t \<Rightarrow> t \<noteq> []))"

text \<open>
  \<^verbatim>\<open>getFile(filename, cb)\<close> with a callback: the value handed to \<^verbatim>\<open>cb\<close>, a text
  or the inherited value that is no text, and the state in which \<^verbatim>\<open>cb\<close> runs.
  A read that is needed is awaited.
\<close>

datatype tval = TText string | TInherited

definition getFile_cb :: "platform \<Rightarrow> settings \<Rightarrow> string \<Rightarrow> world \<Rightarrow> tval \<times> world" where
  "getFile_cb P st filename w =
     (if in_cache st w filename then
        (case pool_own w filename of None \<Rightarrow> TInherited | Some t \<Rightarrow> TText t, w)
      else
        (let fullpath = template_path P st filename;
             w1 = w\<lparr>readLog := readLog w @ [fullpath]\<rparr>
         in case fs_readFile P fullpath of
              None \<Rightarrow> (TText [], w1)
            | Some tmpl \<Rightarrow> (TText tmpl, pool_put filename tmpl w1)))"

text \<open>
  \<^verbatim>\<open>getFile(includeFile)\<close> without a callback, as the include substitution
  calls it: a read that is needed is started and left pending; it fills the
  pool when it calls back, after the substitution has returned.
\<close>

definition getFile_nocb :: "platform \<Rightarrow> settings \<Rightarrow> string \<Rightarrow> world \<Rightarrow> world" where
  "getFile_nocb P st filename w =
     (if in_cache st w filename then w
      else w\<lparr>readLog := readLog w @ [template_path P st filename],
             pending := pending w @ [filename]\<rparr>)"

definition finish_read :: "platform \<Rightarrow> settings \<Rightarrow> string \<Rightarrow> world \<Rightarrow> world" where
  "finish_read P st filename w =
     (case fs_readFile P (template_path P st filename) of
        None \<Rightarrow> w
      | Some tmpl \<Rightarrow> pool_put filename tmpl w)"

text \<open>The pending reads call back, in the order in which they were started.\<close>

definition finish_reads :: "platform \<Rightarrow> settings \<Rightarrow> world \<Rightarrow> world" where
  "finish_reads P st w = fold (finish_read P st) (pending w) (w\<lparr>pending := []\<rparr>)"

text \<open>
  The include marker \<^verbatim>\<open><!--#include="[\w\.\\\/]+"-->\<close>. The class holds no
  double quote, so the longest run of class characters is the only
  candidate for the name.
\<close>

definition is_name_char :: "char \<Rightarrow> bool" where
  "is_name_char c =
     (let n = (of_char c :: nat) in
      (48 \<le> n \<and> n \<le> 57) \<or> (65 \<le> n \<and> n \<le> 90) \<or> (97 \<le> n \<and> n \<le> 122)
      \<or> c = CHR ''_'' \<or> c = CHR ''.'' \<or> c = CHR 0x5C \<or> c = CHR ''/'')"

definition includeBegin :: string where
  "includeBegin = ''<!--#include='' @ [CHR 0x22]"

definition includeAfter :: string where
  "includeAfter = [CHR 0x22, CHR ''-'', CHR ''-'', CHR ''>'']"

text \<open>The name of the marker a text starts with, if it starts with one.\<close>

definition match_include :: "string \<Rightarrow> string option" where
  "match_include s =
     (if take (length includeBegin) s = includeBegin then
        (let rest = drop (length includeBegin) s;
             name = takeWhile is_name_char rest;
             after = dropWhile is_name_char rest
         in if name \<noteq> [] \<and> take (length includeAfter) after = includeAfter
            then Some name else None)
      else None)"

text \<open>
  \<^verbatim>\<open>tmpl.replace(includeRegExp, function(fileStr) { ... })\<close>: the text is
  scanned from the left, every marker is replaced by what the function
  returns for it, and the scan goes on behind the marker (\<open>skip\<close> counts the
  characters of the marker still to pass). The function starts the read of
  the include when it is not cached and returns
  \<^verbatim>\<open>templatePool[includeFile] || ''\<close>, which \<^verbatim>\<open>replace\<close> converts to a string
  when it is an inherited value.
\<close>

definition include_text :: "platform \<Rightarrow> world \<Rightarrow> string \<Rightarrow> string" where
  "include_text P w name =
     (case pool_own w name of
        Some t \<Rightarrow> t
      | None \<Rightarrow> if inherited name then proto_string P name else [])"

fun replace_includes :: "platform \<Rightarrow> settings \<Rightarrow> nat \<Rightarrow> string \<Rightarrow> world \<Rightarrow> string \<times> world" where
  "replace_includes P st skip [] w = ([], w)"
| "replace_includes P st (Suc skip) (c # cs) w = replace_includes P st skip cs w"
| "replace_includes P st 0 (c # cs) w =
     (case match_include (c # cs) of
        None \<Rightarrow> (let (out, w') = replace_includes P st 0 cs w in (c # out, w'))
      | Some name \<Rightarrow>
          (let w1 = getFile_nocb P st name w;
               (out, w') = replace_includes P st
                             (length includeBegin + length name + length includeAfter - 1) cs w1
           in (include_text P w1 name @ out, w')))"

text \<open>
  \<^verbatim>\<open>getTemplate(filename, cb)\<close>: the text handed to \<^verbatim>\<open>cb\<close>. When \<^verbatim>\<open>getFile\<close>
  hands over an inherited value, \<^verbatim>\<open>tmpl.replace\<close> is not a function and the
  call throws a TypeError.
\<close>

definition getTemplate ::
  "platform \<Rightarrow> settings \<Rightarrow> string \<Rightarrow> world \<Rightarrow> error + string \<times> world"
where
  "getTemplate P st filename w =
     (let (v, w1) = getFile_cb P st filename w in
      case v of
        TInherited \<Rightarrow> Inl TypeError
      | TText tmpl \<Rightarrow> Inr (replace_includes P st 0 tmpl w1))"

text \<open>
  The names of the include markers of a text, as the scan above meets them,
  and what it means that a template is ready in the cache: template caching
  is on, the pool holds a text for it that is not empty, and every template
  the markers of that text name is cached.
\<close>

fun include_names :: "nat \<Rightarrow> string \<Rightarrow> string list" where
  "include_names skip [] = []"
| "include_names (Suc skip) (c # cs) = include_names skip cs"
| "include_names 0 (c # cs) =
     (case match_include (c # cs) of
        None \<Rightarrow> include_names 0 cs
      | Some name \<Rightarrow>
          name # include_names (length includeBegin + length name + length includeAfter - 1) cs)"

definition ready :: "settings \<Rightarrow> world \<Rightarrow> string \<Rightarrow> bool" where
  "ready st w filename =
     (templateCache st \<and>
      (case pool_own w filename of
         None \<Rightarrow> False
       | Some t \<Rightarrow> t \<noteq> [] \<and> (\<forall>name \<in> set (include_names 0 t). in_cache st w name)))"

text \<open>
  The inner \<^verbatim>\<open>render(chrunk, model, outFn)\<close>: the text handed to \<^verbatim>\<open>outFn\<close>.
  \<open>model = None\<close> is \<^verbatim>\<open>null\<close>.
\<close>

definition render_chunk :: "platform \<Rightarrow> string \<Rightarrow> tmodel option \<Rightarrow> world \<Rightarrow> string" where
  "render_chunk P chrunk model w =
     (case engineFunc P chrunk (defaultModel w) model of Rendered t \<Rightarrow> t | RenderError e \<Rightarrow> e)"

text \<open>
  \<^verbatim>\<open>Template.render\<close>, by the arguments of the call: none, a model alone, a
  template name alone, or a name and a model. The result is the text handed
  to \<^verbatim>\<open>res.end\<close>, or the error thrown.
\<close>

datatype render_call =
  NoArgs | OnlyModel "tmodel option" | OnlyName string | NameModel string "tmodel option"

definition url_template :: "request \<Rightarrow> string" where
  "url_template req =
     (let tmplUrl = drop 1 (url req); idx = indexOf tmplUrl ''?''
      in if idx > - 1 then take (nat idx) tmplUrl else tmplUrl)"

definition render ::
  "platform \<Rightarrow> settings \<Rightarrow> request \<Rightarrow> render_call \<Rightarrow> world \<Rightarrow> error + string \<times> world"
where
  "render P st req call w =
     (let (tmplUrl, model) =
            (case call of
               NoArgs \<Rightarrow> (url_template req, Some Map.empty)
             | OnlyModel m \<Rightarrow> (url_template req, m)
             | OnlyName n \<Rightarrow> (n, Some Map.empty)
             | NameModel n m \<Rightarrow> (n, m))
      in case getTemplate P st tmplUrl w of
           Inl e \<Rightarrow> Inl e
         | Inr (tmpl, w') \<Rightarrow> Inr (render_chunk P tmpl model w', w'))"

text \<open>
  \<^verbatim>\<open>write404\<close>: the head is written first, so an error thrown by the rendering
  of the template leaves the response without a body.
\<close>

definition write404 ::
  "platform \<Rightarrow> store \<Rightarrow> settings \<Rightarrow> request \<Rightarrow> response \<Rightarrow> world \<Rightarrow> error + response \<times> world"
where
  "write404 P S st req res w =
     (let r = writeHead 404 [(''Content-Type'', HStr ''text/html'')] res in
      if notFound404 st \<noteq> [] then
        (case render P st req (NameModel (notFound404 st) None) w of
           Inl e \<Rightarrow> Inl e
         | Inr (out, w') \<Rightarrow> Inr (res_end S req out r w'))
      else Inr (res_end S req ''File not found!'' r w))"

section \<open>Route rules (Mapper)\<close>

text \<open>
  The expression of a rule: none (any falsy value), a string, a regular
  expression (its \<^verbatim>\<open>test\<close>, a parameter), an array of strings, or another
  truthy value. The handler of a rule: a function (user code, named by a
  number), a string, an array, or another value.
\<close>

datatype expression =
  ENone | EString string | ERegExp "string \<Rightarrow> bool" | EArray "string list" | EOther

datatype handler = HFunction nat | HString string | HArray "string list" | HOther

text \<open>
  The options of a rule: \<open>m_post\<close> is \<^verbatim>\<open>mapper.post\<close> (empty when unset),
  \<open>m_session\<close> and \<open>m_file\<close> the two flags, \<open>m_before\<close> the function attached
  by \<^verbatim>\<open>before\<close> (its answer, by truthiness).
\<close>

record mapper =
  expression :: expression
  handler :: handler
  m_post :: string
  m_session :: bool
  m_file :: bool
  m_before :: "(request \<Rightarrow> response \<Rightarrow> bool) option"

text \<open>The loop of \<^verbatim>\<open>match\<close> over an array expression.\<close>

fun match_array ::
  "(string \<Rightarrow> string option) \<Rightarrow> string \<Rightarrow> params \<Rightarrow> bool \<Rightarrow> string list \<Rightarrow> mresult \<times> params"
where
  "match_array dec reqUrl ps isHandler [] = (MBool False, ps)"
| "match_array dec reqUrl ps isHandler (e # es) =
     (let (r, ps') = matchString dec reqUrl ps isHandler e in
      if truthy r then (MBool True, ps') else match_array dec reqUrl ps' isHandler es)"

text \<open>
  \<^verbatim>\<open>match(req, isHandler)\<close>: the result and the request, whose parameters a
  parameterized match extends.
\<close>

definition match ::
  "(string \<Rightarrow> string option) \<Rightarrow> mapper \<Rightarrow> request \<Rightarrow> bool \<Rightarrow> mresult \<times> request"
where
  "match dec m req isHandler =
     (case expression m of
        ENone \<Rightarrow> (MBool True, req)
      | EString e \<Rightarrow>
          if e = [] then (MBool True, req)
          else (let (r, ps) = matchString dec (url req) (params req) isHandler e
                in (r, req\<lparr>params := ps\<rparr>))
      | ERegExp test \<Rightarrow> (MBool (test (url req)), req)
      | EArray es \<Rightarrow>
          (let (r, ps) = match_array dec (url req) (params req) isHandler es
           in (r, req\<lparr>params := ps\<rparr>))
      | EOther \<Rightarrow> (MBool False, req))"

section \<open>Parsing pipeline (Parser)\<close>

text \<open>
  Where the pipeline of a rule ends: \<open>Invoke\<close>, the handler of the rule is
  called with the request and the response as they are then (what the call
  does is user code, outside the model); \<open>NotValid\<close>, the \<^verbatim>\<open>before\<close> function
  said no and the request was answered; \<open>FormError\<close>, the multipart parser
  reported an error, which is logged.
\<close>

datatype stage = Invoke | NotValid | FormError

datatype outcome =
  Pipeline stage mapper request "response \<times> world"
| Reply "response \<times> world"
| DirList string "response \<times> world"

definition is_space :: "char \<Rightarrow> bool" where
  "is_space c = ((of_char c :: nat) \<in> {9, 10, 11, 12, 13, 32, 160})"

definition trim :: "string \<Rightarrow> string" where
  "trim s = rev (dropWhile is_space (rev (dropWhile is_space s)))"

fun cookie_loop :: "string list \<Rightarrow> (string \<rightharpoonup> string) \<Rightarrow> (string \<rightharpoonup> string)" where
  "cookie_loop [] cookies = cookies"
| "cookie_loop (strCookie # rest) cookies =
     (let idx = indexOf strCookie ''='' in
      cookie_loop rest
        (if idx > 0 then
           assign cookies (trim (take (nat idx) strCookie)) (trim (drop (nat idx + 1) strCookie))
         else cookies))"

definition handle :: "mapper \<Rightarrow> request \<Rightarrow> response \<Rightarrow> world \<Rightarrow> error + outcome" where
  "handle m req res w = Inr (Pipeline Invoke m req (res, w))"

definition parseSession ::
  "platform \<Rightarrow> store \<Rightarrow> settings \<Rightarrow> mapper \<Rightarrow> request \<Rightarrow> response \<Rightarrow> world \<Rightarrow> error + outcome"
where
  "parseSession P S st m req res w =
     (if m_session m \<and> req_session req = None then
        (case init S (clock P) (random P) (toUTCString P) st req res w of
           Inl e \<Rightarrow> Inl e
         | Inr (sp, res', w') \<Rightarrow> handle m (req\<lparr>req_session := Some sp\<rparr>) res' w')
      else handle m req res w)"

text \<open>
  \<^verbatim>\<open>parseBody\<close>: \<^verbatim>\<open>BodyParser\<close> collects the data of the request (\<open>stream\<close>);
  a decoder that throws leaves \<^verbatim>\<open>{}\<close> as the body.
\<close>

definition parseBody ::
  "platform \<Rightarrow> store \<Rightarrow> settings \<Rightarrow> mapper \<Rightarrow> request \<Rightarrow> response \<Rightarrow> world \<Rightarrow> error + outcome"
where
  "parseBody P S st m req res w =
     (if m_post m \<noteq> [] \<and> req_body req = None then
        (let data = stream req;
             body =
               (if m_post m = ''json'' then
                  (case JSON_parse P (if data = [] then ''{}'' else data) of
                     Some j \<Rightarrow> j | None \<Rightarrow> JObj [])
                else if m_post m = ''qs'' then
                  (case qs_parse P data of Some j \<Rightarrow> j | None \<Rightarrow> JObj [])
                else JStr data)
         in parseSession P S st m (req\<lparr>req_body := Some body\<rparr>) res w)
      else parseSession P S st m req res w)"

definition parseFile ::
  "platform \<Rightarrow> store \<Rightarrow> settings \<Rightarrow> mapper \<Rightarrow> request \<Rightarrow> response \<Rightarrow> world \<Rightarrow> error + outcome"
where
  "parseFile P S st m req res w =
     (if (case m_before m of None \<Rightarrow> False | Some f \<Rightarrow> \<not> f req res) then
        Inr (Pipeline NotValid m req (res_end S req ''This is not a valid request'' res w))
      else if m_file m \<and> req_body req = None then
        (case form_parse P (uploadDir st) req of
           None \<Rightarrow> Inr (Pipeline FormError m req (res, w))
         | Some (flds, fls) \<Rightarrow>
             parseBody P S st m (req\<lparr>req_body := Some (JObj flds), req_files := Some fls\<rparr>) res w)
      else parseBody P S st m req res w)"

text \<open>The object \<^verbatim>\<open>parseCookies\<close> builds from the \<^verbatim>\<open>Cookie\<close> header.\<close>

definition cookies_of :: "request \<Rightarrow> (string \<rightharpoonup> string)" where
  "cookies_of req =
     (case headers req ''cookie'' of
        None \<Rightarrow> Map.empty
      | Some cookie \<Rightarrow>
          if cookie = [] then Map.empty
          else cookie_loop (split CHR '';'' cookie) Map.empty)"

definition parseCookies ::
  "platform \<Rightarrow> store \<Rightarrow> settings \<Rightarrow> mapper \<Rightarrow> request \<Rightarrow> response \<Rightarrow> world \<Rightarrow> error + outcome"
where
  "parseCookies P S st m req res w =
     parseFile P S st m (req\<lparr>req_cookies := Some (cookies_of req)\<rparr>) res w"

definition Parser ::
  "platform \<Rightarrow> store \<Rightarrow> settings \<Rightarrow> mapper \<Rightarrow> request \<Rightarrow> response \<Rightarrow> world \<Rightarrow> error + outcome"
where
  "Parser P S st m req res w = parseCookies P S st m req res w"

section \<open>Filter chain\<close>

text \<open>
  One call of \<^verbatim>\<open>next()\<close> on a chain at index \<open>i\<close>: the chain ends by calling
  its callback (\<open>Done\<close>) or by handing a rule that matches to \<^verbatim>\<open>Parser\<close>
  (\<open>Run\<close>); with it come the index the chain is left at and the request.
  A further \<^verbatim>\<open>next()\<close> is up to the handler of the rule.
\<close>

datatype chain_step = Done | Run mapper

function FilterChain_next ::
  "(string \<Rightarrow> string option) \<Rightarrow> mapper list \<Rightarrow> nat \<Rightarrow> request \<Rightarrow> chain_step \<times> nat \<times> request"
where
  "FilterChain_next dec filters i req =
     (if i < length filters then
        (let mapper = filters ! i;
             (r, req') = match dec mapper req False
         in if truthy r then (Run mapper, Suc i, req')
            else FilterChain_next dec filters (Suc i) req')
      else (Done, Suc i, req))"
  by pat_completeness auto
termination
  by (relation "measure (\<lambda>(dec, filters, i, req). length filters - i)") auto

declare FilterChain_next.simps [simp del]

section \<open>Handler dispatch and static files\<close>

text \<open>
  The loop of \<^verbatim>\<open>Handler.handle\<close>: \<open>None\<close> is \<^verbatim>\<open>return false\<close>, no handler
  matched. \<^verbatim>\<open>handler[0]\<close> of an empty array is undefined, and \<^verbatim>\<open>path.join\<close>
  throws a TypeError for it.
\<close>

fun Handler_handle ::
  "platform \<Rightarrow> store \<Rightarrow> settings \<Rightarrow> mapper list \<Rightarrow> request \<Rightarrow> response \<Rightarrow> world
     \<Rightarrow> error + outcome option \<times> request"
where
  "Handler_handle P S st [] req res w = Inr (None, req)"
| "Handler_handle P S st (mapper # rest) req res w =
     (let (r, req') = match (decodeURIComponent P) mapper req True in
      if truthy r then
        (case handler mapper of
           HFunction f \<Rightarrow>
             (case Parser P S st mapper req' res w of
                Inl e \<Rightarrow> Inl e
              | Inr out \<Rightarrow> Inr (Some out, req'))
         | HString content \<Rightarrow>
             Inr (Some (Reply (res_end S req' content
                                 (writeHead 200 [(''Content-Type'', HStr ''text/html'')] res) w)),
                  req')
         | HArray fs \<Rightarrow>
             (case fs of
                [] \<Rightarrow> Inl TypeError
              | f # _ \<Rightarrow>
                  Inr (Some (Reply (writeFile P S req' (path_join P (home st) f) res w)), req'))
         | HOther \<Rightarrow> Inr (Some (Reply (res, w)), req'))
      else Handler_handle P S st rest req' res w)"

text \<open>
  \<^verbatim>\<open>new Date(req.headers["if-modified-since"] || 1)\<close>, in milliseconds;
  \<open>None\<close> is an invalid date, which compares false with everything.
\<close>

definition cacheTime :: "platform \<Rightarrow> request \<Rightarrow> int option" where
  "cacheTime P req =
     (case headers req ''if-modified-since'' of
        None \<Rightarrow> Some 1
      | Some h \<Rightarrow> if h = [] then Some 1 else Date_parse P h)"

text \<open>
  \<^verbatim>\<open>handleDir\<close>: the listing of a directory (\<^verbatim>\<open>ListDir.list\<close>) is not modelled
  further than the fact that it is asked for.
\<close>

definition handleDir ::
  "store \<Rightarrow> settings \<Rightarrow> request \<Rightarrow> string \<Rightarrow> response \<Rightarrow> world \<Rightarrow> outcome"
where
  "handleDir S st req dirPath res w =
     (if listDir st then DirList dirPath (res, w) else Reply (write403 S req res w))"

text \<open>
  \<^verbatim>\<open>handlePath\<close> with \<^verbatim>\<open>handleDefault\<close> written into it; \<open>u\<close> is the \<^verbatim>\<open>url\<close> of
  \<^verbatim>\<open>fileHandler\<close>, the request path without its query string. A default page
  that is a directory sends \<^verbatim>\<open>handlePath\<close> into itself, so the function
  counts its calls down: \<open>None\<close> says that the count given was too small.
\<close>

text \<open>\<^verbatim>\<open>write404\<close> as the last call of a callback: its answer, or its error.\<close>

definition reply404 ::
  "platform \<Rightarrow> store \<Rightarrow> settings \<Rightarrow> request \<Rightarrow> response \<Rightarrow> world \<Rightarrow> error + outcome"
where
  "reply404 P S st req res w =
     (case write404 P S st req res w of Inl e \<Rightarrow> Inl e | Inr rw \<Rightarrow> Inr (Reply rw))"

fun handlePath ::
  "platform \<Rightarrow> store \<Rightarrow> settings \<Rightarrow> nat \<Rightarrow> request \<Rightarrow> string \<Rightarrow> string \<Rightarrow> response \<Rightarrow> world
     \<Rightarrow> (error + outcome) option"
where
  "handlePath P S st 0 req u phyPath res w = None"
| "handlePath P S st (Suc n) req u phyPath res w =
     (case fs_stat P phyPath of
        None \<Rightarrow> Some (reply404 P S st req res w)
      | Some s \<Rightarrow>
          if isFile s then
            (if cache st \<and> (case cacheTime P req of None \<Rightarrow> False | Some c \<Rightarrow> mtime s \<le> c) then
               Some (Inr (Reply (res_end S req [] (writeHead 304 [] res) w)))
             else
               (case setHeader ''Last-Modified'' (HStr (toUTCString P (mtime s))) res of
                  Inl e \<Rightarrow> Some (Inl e)
                | Inr r \<Rightarrow> Some (Inr (Reply (writeFile P S req phyPath r w)))))
          else if isDirectory s then
            (if defaultPage st \<noteq> [] then
               (let defaultPath = path_join P phyPath (defaultPage st) in
                if fs_exists P defaultPath then
                  (if charAt u (length u - 1) \<noteq> ''/'' then
                     (case redirect S req (u @ ''/'') 0 res w of
                        Inl e \<Rightarrow> Some (Inl e)
                      | Inr rw \<Rightarrow> Some (Inr (Reply rw)))
                   else handlePath P S st n req u defaultPath res w)
                else Some (Inr (handleDir S st req phyPath res w)))
             else Some (Inr (handleDir S st req phyPath res w)))
          else Some (reply404 P S st req res w))"

definition fileHandler ::
  "platform \<Rightarrow> store \<Rightarrow> settings \<Rightarrow> nat \<Rightarrow> request \<Rightarrow> response \<Rightarrow> world \<Rightarrow> (error + outcome) option"
where
  "fileHandler P S st n req res w =
     (let u = strip_query (url req);
          fullPath = path_join P (home st) u
      in handlePath P S st n req u fullPath res w)"

section \<open>Request handling\<close>

text \<open>
  The callback \<^verbatim>\<open>requestHandler\<close> gives the chain:
  \<^verbatim>\<open>!Handler.handle(req, res) && fileHandler(req, res)\<close>.
\<close>

definition chain_cb ::
  "platform \<Rightarrow> store \<Rightarrow> settings \<Rightarrow> mapper list \<Rightarrow> nat \<Rightarrow> request \<Rightarrow> response \<Rightarrow> world
     \<Rightarrow> (error + outcome) option"
where
  "chain_cb P S st handlers n req res w =
     (case Handler_handle P S st handlers req res w of
        Inl e \<Rightarrow> Some (Inl e)
      | Inr (Some out, req') \<Rightarrow> Some (Inr out)
      | Inr (None, req') \<Rightarrow> fileHandler P S st n req' res w)"

text \<open>
  A call of \<^verbatim>\<open>req.filter.next()\<close> on the chain at index \<open>i\<close>, with what it sets
  off: the outcome and the index the chain is left at.
\<close>

definition next_call ::
  "platform \<Rightarrow> store \<Rightarrow> settings \<Rightarrow> mapper list \<Rightarrow> mapper list \<Rightarrow> nat \<Rightarrow> nat \<Rightarrow> request \<Rightarrow> response
     \<Rightarrow> world \<Rightarrow> (error + outcome) option \<times> nat"
where
  "next_call P S st filters handlers n i req res w =
     (case FilterChain_next (decodeURIComponent P) filters i req of
        (Run mapper, i', req') \<Rightarrow> (Some (Parser P S st mapper req' res w), i')
      | (Done, i', req') \<Rightarrow> (chain_cb P S st handlers n req' res w, i'))"

text \<open>
  \<^verbatim>\<open>requestHandler\<close>: the parameters of the request start empty, the chain
  starts at index 0 and \<^verbatim>\<open>next()\<close> is called once.
\<close>

definition requestHandler ::
  "platform \<Rightarrow> store \<Rightarrow> settings \<Rightarrow> mapper list \<Rightarrow> mapper list \<Rightarrow> nat \<Rightarrow> request \<Rightarrow> response
     \<Rightarrow> world \<Rightarrow> (error + outcome) option"
where
  "requestHandler P S st filters handlers n req res w =
     fst (next_call P S st filters handlers n 0 (req\<lparr>params := Map.empty\<rparr>) res w)"

section \<open>A sample server\<close>

text \<open>
  Concrete values on which the theorems below are instantiated: a platform
  whose \<^verbatim>\<open>path.join\<close> appends, whose template engine returns the template
  text, whose JSON parser accepts \<^verbatim>\<open>{}\<close> only, and whose file system holds a
  page \<^verbatim>\<open>index.html\<close> last modified at time 3000 and two templates, the
  first of which includes the second.
\<close>

definition sample_platform :: platform where
  "sample_platform =
     \<lparr> clock = (\<lambda>n. 2000 + int n),
       random = (\<lambda>n. n mod 36),
       decodeURIComponent = Some,
       JSON_parse = (\<lambda>s. if s = ''{}'' then Some (JObj []) else None),
       qs_parse = (\<lambda>s. Some (JObj [(''raw'', JStr s)])),
       Date_parse = (\<lambda>s. if s = ''Thu, 01 Jan 1970 00:00:05 GMT'' then Some 5000
                           else if s = ''Thu, 01 Jan 1970 00:00:02 GMT'' then Some 2000
                           else None),
       toUTCString = (\<lambda>t. if t = 3000 then ''Thu, 01 Jan 1970 00:00:03 GMT'' else ''later''),
       path_join = (\<lambda>d f. d @ f),
       mime_lookup = (\<lambda>f. ''text/html''),
       engineFunc = (\<lambda>chrunk d m. Rendered chrunk),
       form_parse = (\<lambda>d r. None),
       fs_stat = (\<lambda>p. if p = ''.//index.html''
                       then Some \<lparr> isFile = True, isDirectory = False, mtime = 3000 \<rparr>
                       else if p = ''.//old.html''
                       then Some \<lparr> isFile = True, isDirectory = False, mtime = 0 \<rparr>
                       else None),
       fs_exists = (\<lambda>p. p = ''.//index.html'' \<or> p = ''.//old.html''),
       fs_readFile = (\<lambda>p. if p = ''.//index.html'' then Some ''<h1>index</h1>''
                           else if p = ''.//old.html'' then Some ''<h1>old</h1>''
                           else if p = ''./page.tmpl''
                           then Some (''Top '' @ includeBegin @ ''part.tmpl'' @ includeAfter @ '' end'')
                           else if p = ''./part.tmpl'' then Some ''PART''
                           else None),
       proto_string = (\<lambda>name. if name = ''__proto__'' then ''[object Object]''
                               else ''function '' @ name @ ''() { [native code] }'') \<rparr>"

text \<open>
  The state of a server that has rendered \<^verbatim>\<open>page.tmpl\<close> once and nothing
  else: the page is in the pool, and the read of the template it includes
  has been started.
\<close>

definition sample_rendered_once :: world where
  "sample_rendered_once =
     new_world\<lparr>templatePool :=
                  [''page.tmpl'' \<mapsto> ''Top '' @ includeBegin @ ''part.tmpl'' @ includeAfter @ '' end''],
                readLog := [''./page.tmpl'', ''./part.tmpl''],
                pending := [''part.tmpl'']\<rparr>"

definition sample_request :: "string \<Rightarrow> (string \<times> string) list \<Rightarrow> string \<Rightarrow> request" where
  "sample_request u hs data =
     \<lparr> url = u, headers = map_of hs, params = Map.empty, req_cookies = None,
       req_body = None, req_files = None, req_session = None, stream = data \<rparr>"

definition sample_mapper :: "expression \<Rightarrow> string \<Rightarrow> mapper" where
  "sample_mapper e p =
     \<lparr> expression = e, handler = HFunction 0, m_post = p, m_session = False,
       m_file = False, m_before = None \<rparr>"

definition sample_sid :: string where
  "sample_sid = ''0123456789abcdefghijklmnopqrstuvwxyz''"

definition sample_filters :: "mapper list" where
  "sample_filters = [sample_mapper (EString ''/admin'') [], sample_mapper (EString ''.html'') ''json'']"

section \<open>Properties of the pattern matcher\<close>






lemma indexOf_from_ge: "indexOf_from s pat k = r \<Longrightarrow> r = - 1 \<or> int k \<le> r"
  by (induction s pat k arbitrary: r rule: indexOf_from.induct) (auto split: if_splits)

lemma indexOf_from_occurs:
  "indexOf_from s pat k = int (k + j) \<Longrightarrow> take (length pat) (drop j s) = pat \<and> j \<le> length s"
proof (induction s pat k arbitrary: j rule: indexOf_from.induct)
  case (1 pat k)
  then show ?case by (auto split: if_splits)
next
  case (2 c cs pat k)
  show ?case
  proof (cases "take (length pat) (c # cs) = pat")
    case True
    with 2 show ?thesis by auto
  next
    case False
    with 2(2) have e: "indexOf_from cs pat (Suc k) = int (k + j)" by simp
    from indexOf_from_ge[OF e] have "j > 0" by auto
    then obtain j' where j': "j = Suc j'" by (cases j) auto
    with e have "indexOf_from cs pat (Suc k) = int (Suc k + j')" by simp
    from 2(1)[OF False this] show ?thesis using j' by simp
  qed
qed

lemma indexOf_occurs: "indexOf s pat = int j \<Longrightarrow> occurs_at pat s j"
proof -
  assume "indexOf s pat = int j"
  then have "indexOf_from s pat 0 = int (0 + j)" by (simp add: indexOf_def)
  from indexOf_from_occurs[OF this] have t: "take (length pat) (drop j s) = pat" and "j \<le> length s"
    by auto
  from t have "length (take (length pat) (drop j s)) = length pat" by simp
  then have "length pat \<le> length s - j" by simp
  with t \<open>j \<le> length s\<close> show ?thesis by (simp add: occurs_at_def)
qed

text \<open>
  Claim C2. Strict (handler) mode, literal expression \<open>E\<close> without a
  parameter marker: when \<^verbatim>\<open>matchString\<close> returns true, \<open>E\<close> occurs in the
  path at offset 0 or 1 and what follows the occurrence is the end of the
  path, \<^verbatim>\<open>/\<close> or \<^verbatim>\<open>?\<close>. The expression \<^verbatim>\<open>/m\<close> does not match the path
  \<^verbatim>\<open>/more/x\<close>; it matches \<^verbatim>\<open>/m\<close>, \<^verbatim>\<open>/m/x\<close> and \<^verbatim>\<open>/m?x=1\<close>.
\<close>

theorem matchString_strict_literal:
  assumes "indexOf E ''/:'' < 0"
  shows "(truthy (fst (matchString dec P rp True E)) \<longrightarrow>
           (\<exists>k. (k = 0 \<or> k = 1) \<and> occurs_at E P k \<and>
                (charAt P (k + length E) = [] \<or> charAt P (k + length E) = ''/''
                 \<or> charAt P (k + length E) = ''?'')))
       \<and> \<not> truthy (fst (matchString dec ''/more/x'' rp True ''/m''))
       \<and> truthy (fst (matchString dec ''/m'' rp True ''/m''))
       \<and> truthy (fst (matchString dec ''/m/x'' rp True ''/m''))
       \<and> truthy (fst (matchString dec ''/m?x=1'' rp True ''/m''))"
proof -
  have gen: "truthy (fst (matchString dec P rp True E)) \<longrightarrow>
           (\<exists>k. (k = 0 \<or> k = 1) \<and> occurs_at E P k \<and>
                (charAt P (k + length E) = [] \<or> charAt P (k + length E) = ''/''
                 \<or> charAt P (k + length E) = ''?''))"
  proof
    assume t: "truthy (fst (matchString dec P rp True E))"
    with assms have idx: "indexOf P E = 0 \<or> indexOf P E = 1"
      by (auto simp: matchString_def Let_def split: if_splits)
    then obtain k :: nat where k: "indexOf P E = int k" "k = 0 \<or> k = 1" by auto
    from indexOf_occurs[OF k(1)] have occ: "occurs_at E P k" .
    from t assms k have "charAt P (k + length E) = [] \<or> charAt P (k + length E) = ''/''
                 \<or> charAt P (k + length E) = ''?''"
      by (auto simp: matchString_def Let_def split: if_splits)
    with k occ show "\<exists>k. (k = 0 \<or> k = 1) \<and> occurs_at E P k \<and>
                (charAt P (k + length E) = [] \<or> charAt P (k + length E) = ''/''
                 \<or> charAt P (k + length E) = ''?'')" by blast
  qed
  have e1: "\<not> truthy (fst (matchString dec ''/more/x'' rp True ''/m''))"
    by (simp add: matchString_def indexOf_def charAt_def)
  have e2: "truthy (fst (matchString dec ''/m'' rp True ''/m''))"
    by (simp add: matchString_def indexOf_def charAt_def)
  have e3: "truthy (fst (matchString dec ''/m/x'' rp True ''/m''))"
    by (simp add: matchString_def indexOf_def charAt_def)
  have e4: "truthy (fst (matchString dec ''/m?x=1'' rp True ''/m''))"
    by (simp add: matchString_def indexOf_def charAt_def)
  from gen e1 e2 e3 e4 show ?thesis by blast
qed

theorem matchString_strict_literal_witness:
  "indexOf ''/home'' ''/:'' < 0 \<and> truthy (fst (matchString Some ''/home/42'' Map.empty True ''/home''))
   \<and> (\<exists>k. (k = 0 \<or> k = 1) \<and> occurs_at ''/home'' ''/home/42'' k \<and>
                (charAt ''/home/42'' (k + length ''/home'') = [] \<or> charAt ''/home/42'' (k + length ''/home'') = ''/''
                 \<or> charAt ''/home/42'' (k + length ''/home'') = ''?''))"
proof -
  have h: "indexOf ''/home'' ''/:'' < 0" by (simp add: indexOf_def)
  have t: "truthy (fst (matchString Some ''/home/42'' Map.empty True ''/home''))"
    by (simp add: matchString_def indexOf_def charAt_def)
  from matchString_strict_literal[OF h, of Some "''/home/42''" Map.empty] t h show ?thesis by blast
qed







text \<open>
  A parameter named \<^verbatim>\<open>__proto__\<close> captures nothing: the expression
  \<^verbatim>\<open>/x/:__proto__\<close> matches the path \<^verbatim>\<open>/x/v\<close> with an object of captures that
  has no key.
\<close>

lemma matchString_proto_parameter:
  "matchString Some ''/x/v'' Map.empty True ''/x/:__proto__'' = (MParams Map.empty, Map.empty)"
  by (simp add: matchString_def parseUrl_def strip_query_def indexOf_def charAt_def js_nth_def Let_def
      capture_def assign_def extend_obj_def fun_eq_iff)

section \<open>Properties of the memory store and of the session lifecycle\<close>

text \<open>
  The test of the sweep answers true for every session with a truthy time
  stamp that differs from the reading of the clock, whatever its age.
\<close>

lemma clear_isValid_any_age:
  "lastAccessTime s = Some t \<Longrightarrow> t \<noteq> 0 \<Longrightarrow> clk (tick w) \<noteq> t \<Longrightarrow>
   fst (clear_isValid clk st s w)"
  by (simp add: clear_isValid_def Date_now_def)

text \<open>
  Claim C5, evaluated on the code. The store holds one session last used at
  time 1000; the sweep runs at time 100000000, more than twice the session
  timeout (1440000) later. The sweep returns with the entry still in the map:
  the test of the sweep is \<^verbatim>\<open>(now - t) || (0 <= 2 * timeout)\<close>, which holds
  whenever \<open>now\<close> differs from \<open>t\<close>.
\<close>

theorem clearHandler_keeps_expired:
  "sessionTimeout (Settings [] []) * 2 < 100000000 - 1000 \<and>
   clearHandler (\<lambda>n. 100000000) (Settings [] [])
     (new_world\<lparr>list := Some [(''sid1'', \<lparr> lastAccessTime = Some 1000, entries = Map.empty \<rparr>)],
                intervals := [5760000]\<rparr>)
   = Inr (new_world\<lparr>list := Some [(''sid1'', \<lparr> lastAccessTime = Some 1000, entries = Map.empty \<rparr>)],
                     intervals := [5760000], tick := 1\<rparr>)"
  by (simp add: clearHandler_def clear_isValid_def Date_now_def stored_def Settings_def new_world_def)

lemma stored_ensure_list: "stored (ensure_list st w) = stored w"
  by (simp add: ensure_list_def stored_def MemoryStore_init_def split: option.splits)

lemma update_absent: "map_of al k = None \<Longrightarrow> AList.update k v al = al @ [(k, v)]"
  by (induction al) (auto split: if_splits)

text \<open>
  What \<^verbatim>\<open>get\<close> hands over, by the three cases of the id: a key of the map, an
  id the map has no key for and inherits, and any other id.
\<close>

lemma get_own:
  "map_of (stored w) k = Some s \<Longrightarrow>
   MemoryStore_get st k w = (SObj s, ensure_list st w)"
  by (simp add: MemoryStore_get_def Let_def stored_ensure_list)

lemma get_inherited:
  "map_of (stored w) k = None \<Longrightarrow> inherited k \<Longrightarrow>
   MemoryStore_get st k w = (SOther, ensure_list st w)"
  by (simp add: MemoryStore_get_def Let_def stored_ensure_list)

lemma get_fresh:
  "map_of (stored w) k = None \<Longrightarrow> \<not> inherited k \<Longrightarrow>
   MemoryStore_get st k w =
     (SObj empty_session, (ensure_list st w)\<lparr>list := Some (stored w @ [(k, empty_session)])\<rparr>)"
  by (simp add: MemoryStore_get_def Let_def stored_ensure_list update_absent)

text \<open>
  Claim C10, as amended. For a session id that is no key of the map of the
  memory store, on a map whose prototype has not been replaced (there is no
  entry \<^verbatim>\<open>__proto__\<close>), what \<^verbatim>\<open>get\<close> hands the callback is never absent and
  is treated as expired. For an id that names no property the map inherits
  from \<^verbatim>\<open>Object.prototype\<close> it is an empty object, and after the call the
  map holds that object under the id, added behind the entries it had (the
  store is changed by the read). For an id that names such a property
  (\<^verbatim>\<open>toString\<close>, \<^verbatim>\<open>constructor\<close>, \<^verbatim>\<open>__proto__\<close> and the others) nothing is
  added to the map, and the callback gets the inherited value. The empty
  object carries no last-access time stamp and the validity check of the
  session parser answers false for it; for either value the callback
  \<^verbatim>\<open>getSession\<close> of the session parser takes the branch of a session that is
  not valid.
\<close>

theorem MemoryStore_get_absent:
  assumes "map_of (stored w) k = None"
    and "map_of (stored w) ''__proto__'' = None"
  shows "(if inherited k
          then fst (MemoryStore_get st k w) = SOther
             \<and> list (snd (MemoryStore_get st k w)) = Some (stored w)
          else fst (MemoryStore_get st k w) = SObj empty_session
             \<and> list (snd (MemoryStore_get st k w)) = Some (stored w @ [(k, empty_session)])
             \<and> map_of (stored (snd (MemoryStore_get st k w))) k = Some empty_session)
       \<and> lastAccessTime empty_session = None
       \<and> isValid clk st empty_session w' = (False, w')
       \<and> getSession S clk rnd g st k res (fst (MemoryStore_get st k w)) w'
           = resetSession S clk rnd g st k res w'"
proof -
  have v: "isValid clk st empty_session w' = (False, w')"
    by (simp add: isValid_def empty_session_def)
  have e: "lastAccessTime empty_session = None" by (simp add: empty_session_def)
  have le: "list (ensure_list st w) = Some (stored w)"
    by (simp add: ensure_list_def stored_def MemoryStore_init_def split: option.splits)
  show ?thesis
  proof (cases "inherited k")
    case True
    from get_inherited[OF assms(1) True] have g: "MemoryStore_get st k w = (SOther, ensure_list st w)" .
    have gs: "getSession S clk rnd g st k res SOther w' = resetSession S clk rnd g st k res w'"
      by (simp add: getSession_def)
    from True g le v e gs show ?thesis by simp
  next
    case False
    from get_fresh[OF assms(1) False] have g: "MemoryStore_get st k w =
        (SObj empty_session, (ensure_list st w)\<lparr>list := Some (stored w @ [(k, empty_session)])\<rparr>)" .
    have m: "map_of (stored ((ensure_list st w)\<lparr>list := Some (stored w @ [(k, empty_session)])\<rparr>)) k
               = Some empty_session"
      using assms(1) by (simp add: stored_def map_add_def split: option.splits)
    have gs: "getSession S clk rnd g st k res (SObj empty_session) w' = resetSession S clk rnd g st k res w'"
      by (simp add: getSession_def v)
    from False g v m e gs show ?thesis by simp
  qed
qed

text \<open>
  The claim as stated fails: the id \<^verbatim>\<open>toString\<close> is no key of the map of a
  store that has not been used yet, and \<^verbatim>\<open>get\<close> adds nothing for it; the
  callback gets the function every object inherits under that name.
\<close>

theorem MemoryStore_get_absent_counterexample:
  "map_of (stored new_world) ''toString'' = None
   \<and> MemoryStore_get (Settings [] []) ''toString'' new_world
       = (SOther, new_world\<lparr>list := Some [], intervals := [5760000]\<rparr>)
   \<and> map_of (stored (snd (MemoryStore_get (Settings [] []) ''toString'' new_world))) ''toString'' = None"
  by (simp add: MemoryStore_get_def ensure_list_def MemoryStore_init_def stored_def Settings_def
      new_world_def inherited_def Object_prototype_names_def)

theorem MemoryStore_get_absent_witness:
  "map_of (stored new_world) ''abc'' = None \<and> \<not> inherited ''abc''
   \<and> MemoryStore_get (Settings [] []) ''abc'' new_world
       = (SObj empty_session, new_world\<lparr>list := Some [(''abc'', empty_session)], intervals := [5760000]\<rparr>)
   \<and> isValid (\<lambda>n. 7) (Settings [] []) empty_session new_world = (False, new_world)"
proof -
  have h: "map_of (stored new_world) ''abc'' = None"
    by (simp add: stored_def new_world_def)
  have i: "\<not> inherited ''abc''" by (simp add: inherited_def Object_prototype_names_def)
  have p: "map_of (stored new_world) ''__proto__'' = None"
    by (simp add: stored_def new_world_def)
  have e: "MemoryStore_get (Settings [] []) ''abc'' new_world
       = (SObj empty_session, new_world\<lparr>list := Some [(''abc'', empty_session)], intervals := [5760000]\<rparr>)"
    by (simp add: MemoryStore_get_def ensure_list_def MemoryStore_init_def stored_def Settings_def
        new_world_def inherited_def Object_prototype_names_def)
  from MemoryStore_get_absent[where st = "Settings [] []" and clk = "\<lambda>n. 7" and w' = new_world,
      OF h p] h i e
  show ?thesis by simp
qed

lemma get_tick: "tick (snd (MemoryStore_get st k w)) = tick w"
  by (simp add: MemoryStore_get_def Let_def ensure_list_def MemoryStore_init_def split: option.splits)

lemma get_list_Some: "list (snd (MemoryStore_get st k w)) = Some (stored (snd (MemoryStore_get st k w)))"
  by (simp add: MemoryStore_get_def Let_def ensure_list_def MemoryStore_init_def stored_def
      split: option.splits)

text \<open>
  After \<^verbatim>\<open>get\<close> the map holds the object handed over under the id, and no
  entry for an id for which another value was handed over.
\<close>

lemma get_present:
  "map_of (stored (snd (MemoryStore_get st k w))) k =
     (case fst (MemoryStore_get st k w) of SObj s \<Rightarrow> Some s | SOther \<Rightarrow> None)"
  by (auto simp: MemoryStore_get_def Let_def stored_def ensure_list_def MemoryStore_init_def
      update_Some_unfold split: option.splits)

lemma get_keeps_others:
  "j \<noteq> k \<Longrightarrow> map_of (stored (snd (MemoryStore_get st k w))) j = map_of (stored w) j"
  by (auto simp: MemoryStore_get_def Let_def stored_def ensure_list_def MemoryStore_init_def
      update_conv' split: option.splits)

lemma isValid_iff:
  "isValid clk st s w =
     (if \<exists>t. lastAccessTime s = Some t \<and> t \<noteq> 0 \<and> clk (tick w) - t \<le> sessionTimeout st
      then (True, w\<lparr>tick := Suc (tick w)\<rparr>)
      else (False, if \<exists>t. lastAccessTime s = Some t \<and> t \<noteq> 0 then w\<lparr>tick := Suc (tick w)\<rparr> else w))"
  by (auto simp: isValid_def Date_now_def split: option.splits)

lemma setSession_props:
  "setSession clk rnd g st res w0 = (self, res', w') \<Longrightarrow>
     sid self = fst (newID clk rnd st 0 w0)
   \<and> val self = \<lparr> lastAccessTime = Some (clk (Suc (tick w0))), entries = Map.empty \<rparr>
   \<and> res_cookies res' =
        Some ((case res_cookies res of None \<Rightarrow> [] | Some cs \<Rightarrow> cs) @
              [''_wsid='' @ sid self @ ''; path=/'' @
               (if sessionDomain st = [] then [] else ''; domain='' @ sessionDomain st) @
               ''; httponly''])
   \<and> list w' = list w0"
  by (auto simp: setSession_def create_def newID_def Date_now_def random_chars_def Cookie_def Let_def
      split: prod.splits)

text \<open>
  What \<^verbatim>\<open>getSession\<close> does with the value \<open>x\<close> a store hands over in the state
  \<open>w1\<close>: a session object with a truthy time stamp within the timeout is
  attached, the new time stamp assigned to it; for every other value the
  store is asked to delete the id, in the state \<open>w1\<close> or, when the clock was
  read for the test, in \<open>w1\<close> one reading later, and the create path follows.
\<close>

lemma getSession_cases:
  "if \<exists>s t. x = SObj s \<and> lastAccessTime s = Some t \<and> t \<noteq> 0 \<and> clk (tick w1) - t \<le> sessionTimeout st
   then \<exists>s. x = SObj s \<and>
          getSession S clk rnd g st v res x w1 =
            Inr (\<lparr> sid = v, val = s\<lparr>lastAccessTime := Some (clk (Suc (tick w1)))\<rparr> \<rparr>, res,
                 st_touch S v (s\<lparr>lastAccessTime := Some (clk (Suc (tick w1)))\<rparr>)
                   (w1\<lparr>tick := Suc (Suc (tick w1))\<rparr>))
   else \<exists>wz. (wz = w1 \<or> wz = w1\<lparr>tick := Suc (tick w1)\<rparr>) \<and>
          getSession S clk rnd g st v res x w1 = resetSession S clk rnd g st v res wz"
proof (cases x)
  case SOther
  then show ?thesis by (auto simp: getSession_def)
next
  case (SObj s)
  show ?thesis
  proof (cases "\<exists>t. lastAccessTime s = Some t \<and> t \<noteq> 0 \<and> clk (tick w1) - t \<le> sessionTimeout st")
    case True
    then have iv: "isValid clk st s w1 = (True, w1\<lparr>tick := Suc (tick w1)\<rparr>)"
      by (simp add: isValid_iff)
    have "getSession S clk rnd g st v res x w1 =
            Inr (\<lparr> sid = v, val = s\<lparr>lastAccessTime := Some (clk (Suc (tick w1)))\<rparr> \<rparr>, res,
                 st_touch S v (s\<lparr>lastAccessTime := Some (clk (Suc (tick w1)))\<rparr>)
                   (w1\<lparr>tick := Suc (Suc (tick w1))\<rparr>))"
      by (simp add: getSession_def SObj iv Date_now_def Let_def)
    with True SObj show ?thesis by simp
  next
    case False
    then obtain wz where iv: "isValid clk st s w1 = (False, wz)"
      and wz: "wz = w1 \<or> wz = w1\<lparr>tick := Suc (tick w1)\<rparr>"
      by (auto simp: isValid_iff)
    have "getSession S clk rnd g st v res x w1 = resetSession S clk rnd g st v res wz"
      by (simp add: getSession_def SObj iv)
    with False SObj wz show ?thesis by auto
  qed
qed

text \<open>
  Claim C4. Session initialisation with the session store \<open>S\<close>, whichever
  it is, and with the cookies of the request parsed. When the cookie
  \<^verbatim>\<open>_wsid\<close> is absent, empty or of a length other than \<^verbatim>\<open>sessionLength\<close>,
  \<^verbatim>\<open>init\<close> takes the create path \<^verbatim>\<open>setSession\<close> and does not ask the store.
  When it is present with the right length, what the store hands over for
  it is attached, with its time stamp refreshed, exactly when it is a
  session object that carries a last-access time stamp (one that is truthy,
  so not 0) within \<^verbatim>\<open>sessionTimeout\<close> of the current time; otherwise the store
  is asked to delete the id and the create path is taken (an error of the
  deletion is the error of \<^verbatim>\<open>init\<close>). The create path generates an id with
  \<^verbatim>\<open>newID\<close>, attaches a new session object that holds only a last-access
  time stamp read from the clock, adds the cookie \<^verbatim>\<open>_wsid\<close> with that id to
  the cookies of the response and leaves the memory store as it is. With
  the memory store, on a map whose prototype has not been replaced, the
  refreshed session is the entry of the map afterwards in the first case,
  and in the second the deletion does not fail and the map has no entry for
  the id when the create path starts.
\<close>

theorem init_session_lifecycle:
  assumes ck: "req_cookies req = Some cookies"
  shows
   "((cookies ''_wsid'' = None \<or> cookies ''_wsid'' = Some []
       \<or> (\<exists>v. cookies ''_wsid'' = Some v \<and> int (length v) \<noteq> sessionLength st)) \<longrightarrow>
       init S clk rnd g st req res w = Inr (setSession clk rnd g st res w))
    \<and> (\<forall>v. cookies ''_wsid'' = Some v \<and> v \<noteq> [] \<and> int (length v) = sessionLength st \<longrightarrow>
         (let x = fst (st_get S v w); w1 = snd (st_get S v w) in
          if \<exists>s t. x = SObj s \<and> lastAccessTime s = Some t \<and> t \<noteq> 0
                   \<and> clk (tick w1) - t \<le> sessionTimeout st
          then \<exists>s. x = SObj s \<and>
                 init S clk rnd g st req res w =
                   Inr (\<lparr> sid = v, val = s\<lparr>lastAccessTime := Some (clk (Suc (tick w1)))\<rparr> \<rparr>, res,
                        st_touch S v (s\<lparr>lastAccessTime := Some (clk (Suc (tick w1)))\<rparr>)
                          (w1\<lparr>tick := Suc (Suc (tick w1))\<rparr>))
          else \<exists>wz. (wz = w1 \<or> wz = w1\<lparr>tick := Suc (tick w1)\<rparr>) \<and>
                 init S clk rnd g st req res w =
                   (case st_del S v wz of
                      Inl e \<Rightarrow> Inl e
                    | Inr w2 \<Rightarrow> Inr (setSession clk rnd g st res w2))))
    \<and> (\<forall>w0 self res' w'. setSession clk rnd g st res w0 = (self, res', w') \<longrightarrow>
           sid self = fst (newID clk rnd st 0 w0)
         \<and> val self = \<lparr> lastAccessTime = Some (clk (Suc (tick w0))), entries = Map.empty \<rparr>
         \<and> res_cookies res' =
              Some ((case res_cookies res of None \<Rightarrow> [] | Some cs \<Rightarrow> cs) @
                    [''_wsid='' @ sid self @ ''; path=/'' @
                     (if sessionDomain st = [] then [] else ''; domain='' @ sessionDomain st) @
                     ''; httponly''])
         \<and> list w' = list w0)
    \<and> (S = MemoryStore st \<and> map_of (stored w) ''__proto__'' = None \<longrightarrow>
        (\<forall>v. cookies ''_wsid'' = Some v \<and> v \<noteq> [] \<and> int (length v) = sessionLength st \<longrightarrow>
           (if \<exists>s t. map_of (stored w) v = Some s \<and> lastAccessTime s = Some t \<and> t \<noteq> 0
                    \<and> clk (tick w) - t \<le> sessionTimeout st
            then \<exists>s w'. map_of (stored w) v = Some s \<and>
                   init S clk rnd g st req res w =
                     Inr (\<lparr> sid = v, val = s\<lparr>lastAccessTime := Some (clk (Suc (tick w)))\<rparr> \<rparr>, res, w')
                 \<and> map_of (stored w') v = Some (s\<lparr>lastAccessTime := Some (clk (Suc (tick w)))\<rparr>)
            else \<exists>w2. init S clk rnd g st req res w = Inr (setSession clk rnd g st res w2)
                 \<and> map_of (stored w2) v = None
                 \<and> (\<forall>j. j \<noteq> v \<longrightarrow> map_of (stored w2) j = map_of (stored w) j))))"
proof (intro conjI)
  show "(cookies ''_wsid'' = None \<or> cookies ''_wsid'' = Some []
       \<or> (\<exists>v. cookies ''_wsid'' = Some v \<and> int (length v) \<noteq> sessionLength st)) \<longrightarrow>
       init S clk rnd g st req res w = Inr (setSession clk rnd g st res w)"
    using ck by (auto simp: init_def)
next
  show "\<forall>v. cookies ''_wsid'' = Some v \<and> v \<noteq> [] \<and> int (length v) = sessionLength st \<longrightarrow>
         (let x = fst (st_get S v w); w1 = snd (st_get S v w) in
          if \<exists>s t. x = SObj s \<and> lastAccessTime s = Some t \<and> t \<noteq> 0
                   \<and> clk (tick w1) - t \<le> sessionTimeout st
          then \<exists>s. x = SObj s \<and>
                 init S clk rnd g st req res w =
                   Inr (\<lparr> sid = v, val = s\<lparr>lastAccessTime := Some (clk (Suc (tick w1)))\<rparr> \<rparr>, res,
                        st_touch S v (s\<lparr>lastAccessTime := Some (clk (Suc (tick w1)))\<rparr>)
                          (w1\<lparr>tick := Suc (Suc (tick w1))\<rparr>))
          else \<exists>wz. (wz = w1 \<or> wz = w1\<lparr>tick := Suc (tick w1)\<rparr>) \<and>
                 init S clk rnd g st req res w =
                   (case st_del S v wz of
                      Inl e \<Rightarrow> Inl e
                    | Inr w2 \<Rightarrow> Inr (setSession clk rnd g st res w2)))"
  proof (intro allI impI)
    fix v assume v: "cookies ''_wsid'' = Some v \<and> v \<noteq> [] \<and> int (length v) = sessionLength st"
    have i: "init S clk rnd g st req res w =
               getSession S clk rnd g st v res (fst (st_get S v w)) (snd (st_get S v w))"
      using ck v by (simp add: init_def case_prod_beta)
    from getSession_cases[of "fst (st_get S v w)" clk "snd (st_get S v w)" st S rnd g v res]
    show "let x = fst (st_get S v w); w1 = snd (st_get S v w) in
          if \<exists>s t. x = SObj s \<and> lastAccessTime s = Some t \<and> t \<noteq> 0
                   \<and> clk (tick w1) - t \<le> sessionTimeout st
          then \<exists>s. x = SObj s \<and>
                 init S clk rnd g st req res w =
                   Inr (\<lparr> sid = v, val = s\<lparr>lastAccessTime := Some (clk (Suc (tick w1)))\<rparr> \<rparr>, res,
                        st_touch S v (s\<lparr>lastAccessTime := Some (clk (Suc (tick w1)))\<rparr>)
                          (w1\<lparr>tick := Suc (Suc (tick w1))\<rparr>))
          else \<exists>wz. (wz = w1 \<or> wz = w1\<lparr>tick := Suc (tick w1)\<rparr>) \<and>
                 init S clk rnd g st req res w =
                   (case st_del S v wz of
                      Inl e \<Rightarrow> Inl e
                    | Inr w2 \<Rightarrow> Inr (setSession clk rnd g st res w2))"
      unfolding Let_def i resetSession_def .
  qed
next
  show "\<forall>w0 self res' w'. setSession clk rnd g st res w0 = (self, res', w') \<longrightarrow>
           sid self = fst (newID clk rnd st 0 w0)
         \<and> val self = \<lparr> lastAccessTime = Some (clk (Suc (tick w0))), entries = Map.empty \<rparr>
         \<and> res_cookies res' =
              Some ((case res_cookies res of None \<Rightarrow> [] | Some cs \<Rightarrow> cs) @
                    [''_wsid='' @ sid self @ ''; path=/'' @
                     (if sessionDomain st = [] then [] else ''; domain='' @ sessionDomain st) @
                     ''; httponly''])
         \<and> list w' = list w0"
    by (intro allI impI) (rule setSession_props)
next
  show "S = MemoryStore st \<and> map_of (stored w) ''__proto__'' = None \<longrightarrow>
        (\<forall>v. cookies ''_wsid'' = Some v \<and> v \<noteq> [] \<and> int (length v) = sessionLength st \<longrightarrow>
           (if \<exists>s t. map_of (stored w) v = Some s \<and> lastAccessTime s = Some t \<and> t \<noteq> 0
                    \<and> clk (tick w) - t \<le> sessionTimeout st
            then \<exists>s w'. map_of (stored w) v = Some s \<and>
                   init S clk rnd g st req res w =
                     Inr (\<lparr> sid = v, val = s\<lparr>lastAccessTime := Some (clk (Suc (tick w)))\<rparr> \<rparr>, res, w')
                 \<and> map_of (stored w') v = Some (s\<lparr>lastAccessTime := Some (clk (Suc (tick w)))\<rparr>)
            else \<exists>w2. init S clk rnd g st req res w = Inr (setSession clk rnd g st res w2)
                 \<and> map_of (stored w2) v = None
                 \<and> (\<forall>j. j \<noteq> v \<longrightarrow> map_of (stored w2) j = map_of (stored w) j)))"
  proof (intro impI allI)
    fix v
    assume M: "S = MemoryStore st \<and> map_of (stored w) ''__proto__'' = None"
      and v: "cookies ''_wsid'' = Some v \<and> v \<noteq> [] \<and> int (length v) = sessionLength st"
    define x where "x = fst (MemoryStore_get st v w)"
    define w1 where "w1 = snd (MemoryStore_get st v w)"
    have t1: "tick w1 = tick w" unfolding w1_def by (rule get_tick)
    have l1: "list w1 = Some (stored w1)" unfolding w1_def by (rule get_list_Some)
    have p1: "map_of (stored w1) v = (case x of SObj s \<Rightarrow> Some s | SOther \<Rightarrow> None)"
      unfolding w1_def x_def by (rule get_present)
    have o1: "\<And>j. j \<noteq> v \<Longrightarrow> map_of (stored w1) j = map_of (stored w) j"
      unfolding w1_def by (rule get_keeps_others)
    have i: "init S clk rnd g st req res w = getSession S clk rnd g st v res x w1"
      using ck v M by (simp add: init_def case_prod_beta MemoryStore_def x_def w1_def)
    have xs: "(\<exists>s t. x = SObj s \<and> lastAccessTime s = Some t \<and> t \<noteq> 0
                 \<and> clk (tick w1) - t \<le> sessionTimeout st)
            \<longleftrightarrow> (\<exists>s t. map_of (stored w) v = Some s \<and> lastAccessTime s = Some t \<and> t \<noteq> 0
                 \<and> clk (tick w) - t \<le> sessionTimeout st)"
    proof (cases "map_of (stored w) v")
      case None
      then have "x = SOther \<or> x = SObj empty_session"
        unfolding x_def by (cases "inherited v") (simp_all add: get_inherited get_fresh)
      with None show ?thesis by (auto simp: empty_session_def)
    next
      case (Some s)
      from get_own[OF this] have "x = SObj s" unfolding x_def by simp
      with Some t1 show ?thesis by simp
    qed
    show "if \<exists>s t. map_of (stored w) v = Some s \<and> lastAccessTime s = Some t \<and> t \<noteq> 0
                    \<and> clk (tick w) - t \<le> sessionTimeout st
            then \<exists>s w'. map_of (stored w) v = Some s \<and>
                   init S clk rnd g st req res w =
                     Inr (\<lparr> sid = v, val = s\<lparr>lastAccessTime := Some (clk (Suc (tick w)))\<rparr> \<rparr>, res, w')
                 \<and> map_of (stored w') v = Some (s\<lparr>lastAccessTime := Some (clk (Suc (tick w)))\<rparr>)
            else \<exists>w2. init S clk rnd g st req res w = Inr (setSession clk rnd g st res w2)
                 \<and> map_of (stored w2) v = None
                 \<and> (\<forall>j. j \<noteq> v \<longrightarrow> map_of (stored w2) j = map_of (stored w) j)"
    proof (cases "\<exists>s t. map_of (stored w) v = Some s \<and> lastAccessTime s = Some t \<and> t \<noteq> 0
                    \<and> clk (tick w) - t \<le> sessionTimeout st")
      case True
      then obtain s where s: "map_of (stored w) v = Some s" by blast
      from get_own[OF s] have xv: "x = SObj s" unfolding x_def by simp
      from True xs getSession_cases[of x clk w1 st S rnd g v res] xv
      have gs: "getSession S clk rnd g st v res x w1 =
            Inr (\<lparr> sid = v, val = s\<lparr>lastAccessTime := Some (clk (Suc (tick w1)))\<rparr> \<rparr>, res,
                 st_touch S v (s\<lparr>lastAccessTime := Some (clk (Suc (tick w1)))\<rparr>)
                   (w1\<lparr>tick := Suc (Suc (tick w1))\<rparr>))"
        by auto
      have tc: "map_of (stored (st_touch S v (s\<lparr>lastAccessTime := Some (clk (Suc (tick w1)))\<rparr>)
                   (w1\<lparr>tick := Suc (Suc (tick w1))\<rparr>))) v
              = Some (s\<lparr>lastAccessTime := Some (clk (Suc (tick w1)))\<rparr>)"
      proof -
        from l1 obtain l where l: "list w1 = Some l" by blast
        with M show ?thesis by (simp add: MemoryStore_def stored_def update_conv')
      qed
      from gs tc i s t1 True show ?thesis by auto
    next
      case False
      with xs have nx: "\<not> (\<exists>s t. x = SObj s \<and> lastAccessTime s = Some t \<and> t \<noteq> 0
                 \<and> clk (tick w1) - t \<le> sessionTimeout st)" by simp
      from getSession_cases[of x clk w1 st S rnd g v res] nx
      have "\<exists>wz. (wz = w1 \<or> wz = w1\<lparr>tick := Suc (tick w1)\<rparr>) \<and>
          getSession S clk rnd g st v res x w1 = resetSession S clk rnd g st v res wz"
        by (simp only: if_not_P if_False)
      then obtain wz where wz: "wz = w1 \<or> wz = w1\<lparr>tick := Suc (tick w1)\<rparr>"
        and gs: "getSession S clk rnd g st v res x w1 = resetSession S clk rnd g st v res wz"
        by blast
      from l1 obtain l where l: "list w1 = Some l" by blast
      then have sl: "stored w1 = l" by (simp add: stored_def)
      from wz l have lz: "list wz = Some l" by auto
      then have sz: "stored wz = l" by (simp add: stored_def)
      define w2 where "w2 = (if v = ''__proto__'' then wz else wz\<lparr>list := Some (AList.delete v l)\<rparr>)"
      have d: "st_del S v wz = Inr w2"
        using M by (simp add: MemoryStore_def MemoryStore_del_def lz w2_def)
      have pv: "v = ''__proto__'' \<Longrightarrow> map_of (stored w1) v = None"
      proof -
        assume e: "v = ''__proto__''"
        with M have "map_of (stored w) v = None" by simp
        moreover have "inherited v" using e by (simp add: inherited_def Object_prototype_names_def)
        ultimately have "x = SOther" unfolding x_def by (simp add: get_inherited)
        with p1 show ?thesis by simp
      qed
      have s2: "stored w2 = (if v = ''__proto__'' then l else AList.delete v l)"
        using sz by (simp add: w2_def stored_def)
      have none: "map_of (stored w2) v = None"
        using pv sl by (simp add: s2 delete_conv')
      have others: "\<forall>j. j \<noteq> v \<longrightarrow> map_of (stored w2) j = map_of (stored w) j"
        using o1 sl by (simp add: s2 delete_conv')
      from gs d i have "init S clk rnd g st req res w = Inr (setSession clk rnd g st res w2)"
        by (simp add: resetSession_def)
      with none others False show ?thesis by auto
    qed
  qed
qed

lemma sample_sid_length: "int (length sample_sid) = sessionLength (Settings cwd tmp)"
  by (simp add: sample_sid_def Settings_def)

theorem init_session_lifecycle_witness:
  "req_cookies ((sample_request ''/'' [] [])\<lparr>req_cookies := Some [''_wsid'' \<mapsto> sample_sid]\<rparr>)
     = Some [''_wsid'' \<mapsto> sample_sid]
   \<and> (\<exists>w'. init (MemoryStore (Settings [] [])) (\<lambda>n. 2000 + int n) (\<lambda>n. n mod 36) (\<lambda>t. ''later'')
          (Settings [] [])
          ((sample_request ''/'' [] [])\<lparr>req_cookies := Some [''_wsid'' \<mapsto> sample_sid]\<rparr>)
          fresh_response
          (new_world\<lparr>list := Some [(sample_sid, \<lparr> lastAccessTime = Some 1000, entries = Map.empty \<rparr>)]\<rparr>)
        = Inr (\<lparr> sid = sample_sid, val = \<lparr> lastAccessTime = Some 2001, entries = Map.empty \<rparr> \<rparr>,
               fresh_response, w')
        \<and> map_of (stored w') sample_sid = Some \<lparr> lastAccessTime = Some 2001, entries = Map.empty \<rparr>)
   \<and> (\<exists>w2. init (MemoryStore (Settings [] [])) (\<lambda>n. 2000 + int n) (\<lambda>n. n mod 36) (\<lambda>t. ''later'')
          (Settings [] [])
          ((sample_request ''/'' [] [])\<lparr>req_cookies := Some [''_wsid'' \<mapsto> sample_sid]\<rparr>)
          fresh_response
          (new_world\<lparr>list := Some [(sample_sid, \<lparr> lastAccessTime = Some 1000, entries = Map.empty \<rparr>)],
                     tick := 2000000\<rparr>)
        = Inr (setSession (\<lambda>n. 2000 + int n) (\<lambda>n. n mod 36) (\<lambda>t. ''later'') (Settings [] [])
                 fresh_response w2)
        \<and> map_of (stored w2) sample_sid = None)
   \<and> init (MemoryStore (Settings [] [])) (\<lambda>n. 2000 + int n) (\<lambda>n. n mod 36) (\<lambda>t. ''later'')
          (Settings [] [])
          ((sample_request ''/'' [] [])\<lparr>req_cookies := Some Map.empty\<rparr>) fresh_response new_world
        = Inr (setSession (\<lambda>n. 2000 + int n) (\<lambda>n. n mod 36) (\<lambda>t. ''later'') (Settings [] [])
                 fresh_response new_world)"
proof -
  let ?clk = "\<lambda>n. 2000 + int n" and ?rnd = "\<lambda>n. n mod 36" and ?g = "\<lambda>t::int. ''later''"
  let ?st = "Settings [] []"
  let ?S = "MemoryStore (Settings [] [])"
  let ?req = "(sample_request ''/'' [] [])\<lparr>req_cookies := Some [''_wsid'' \<mapsto> sample_sid]\<rparr>"
  let ?s = "\<lparr> lastAccessTime = Some 1000, entries = Map.empty \<rparr> :: session"
  let ?w = "new_world\<lparr>list := Some [(sample_sid, ?s)]\<rparr>"
  let ?wl = "new_world\<lparr>list := Some [(sample_sid, ?s)], tick := 2000000\<rparr>"
  have ck: "req_cookies ?req = Some [''_wsid'' \<mapsto> sample_sid]" by simp
  have ne: "sample_sid \<noteq> []" by (simp add: sample_sid_def)
  have np: "sample_sid \<noteq> ''__proto__''" by (simp add: sample_sid_def)
  have m: "map_of (stored ?w) sample_sid = Some ?s" "map_of (stored ?wl) sample_sid = Some ?s"
    by (simp_all add: stored_def)
  have p: "map_of (stored ?w) ''__proto__'' = None" "map_of (stored ?wl) ''__proto__'' = None"
    using np by (simp_all add: stored_def)
  have tw: "tick ?w = 0" "tick ?wl = 2000000" by (simp_all add: new_world_def)
  have to: "sessionTimeout ?st = 1440000" by (simp add: Settings_def)
  note T = init_session_lifecycle[OF ck, of ?st ?S ?clk ?rnd ?g fresh_response ?w]
  note TL = init_session_lifecycle[OF ck, of ?st ?S ?clk ?rnd ?g fresh_response ?wl]
  have va: "\<exists>s t. map_of (stored ?w) sample_sid = Some s \<and> lastAccessTime s = Some t \<and> t \<noteq> 0
                \<and> ?clk (tick ?w) - t \<le> sessionTimeout ?st"
    by (simp add: m tw to)
  have vb: "\<not> (\<exists>s t. map_of (stored ?wl) sample_sid = Some s \<and> lastAccessTime s = Some t \<and> t \<noteq> 0
                \<and> ?clk (tick ?wl) - t \<le> sessionTimeout ?st)"
    by (simp add: m tw to)
  have cv: "[''_wsid'' \<mapsto> sample_sid] ''_wsid'' = Some sample_sid \<and> sample_sid \<noteq> []
            \<and> int (length sample_sid) = sessionLength ?st"
    using ne sample_sid_length[of "[]" "[]"] by simp
  from T[THEN conjunct2, THEN conjunct2, THEN conjunct2, rule_format, of sample_sid,
         OF conjI[OF refl p(1)] cv] va
  have "\<exists>s w'. map_of (stored ?w) sample_sid = Some s \<and>
                   init ?S ?clk ?rnd ?g ?st ?req fresh_response ?w =
                     Inr (\<lparr> sid = sample_sid, val = s\<lparr>lastAccessTime := Some (?clk (Suc (tick ?w)))\<rparr> \<rparr>,
                          fresh_response, w')
                 \<and> map_of (stored w') sample_sid = Some (s\<lparr>lastAccessTime := Some (?clk (Suc (tick ?w)))\<rparr>)"
    by (simp only: if_P if_True)
  then obtain s w' where s: "map_of (stored ?w) sample_sid = Some s"
    and i: "init ?S ?clk ?rnd ?g ?st ?req fresh_response ?w =
                     Inr (\<lparr> sid = sample_sid, val = s\<lparr>lastAccessTime := Some (?clk (Suc (tick ?w)))\<rparr> \<rparr>,
                          fresh_response, w')"
    and k: "map_of (stored w') sample_sid = Some (s\<lparr>lastAccessTime := Some (?clk (Suc (tick ?w)))\<rparr>)"
    by blast
  from s m(1) have "s = ?s" by simp
  with i k tw have a: "\<exists>w'. init ?S ?clk ?rnd ?g ?st ?req fresh_response ?w
        = Inr (\<lparr> sid = sample_sid, val = \<lparr> lastAccessTime = Some 2001, entries = Map.empty \<rparr> \<rparr>,
               fresh_response, w')
        \<and> map_of (stored w') sample_sid = Some \<lparr> lastAccessTime = Some 2001, entries = Map.empty \<rparr>"
    by auto
  from TL[THEN conjunct2, THEN conjunct2, THEN conjunct2, rule_format, of sample_sid,
         OF conjI[OF refl p(2)] cv] vb
  have "\<exists>w2. init ?S ?clk ?rnd ?g ?st ?req fresh_response ?wl
                   = Inr (setSession ?clk ?rnd ?g ?st fresh_response w2)
                 \<and> map_of (stored w2) sample_sid = None
                 \<and> (\<forall>j. j \<noteq> sample_sid \<longrightarrow> map_of (stored w2) j = map_of (stored ?wl) j)"
    by (simp only: if_not_P if_False)
  then have b: "\<exists>w2. init ?S ?clk ?rnd ?g ?st ?req fresh_response ?wl
        = Inr (setSession ?clk ?rnd ?g ?st fresh_response w2)
        \<and> map_of (stored w2) sample_sid = None"
    by blast
  have ck0: "req_cookies ((sample_request ''/'' [] [])\<lparr>req_cookies := Some Map.empty\<rparr>) = Some Map.empty"
    by simp
  from init_session_lifecycle[OF ck0, of ?st ?S ?clk ?rnd ?g fresh_response new_world,
      THEN conjunct1]
  have c: "init ?S ?clk ?rnd ?g ?st ((sample_request ''/'' [] [])\<lparr>req_cookies := Some Map.empty\<rparr>)
             fresh_response new_world
        = Inr (setSession ?clk ?rnd ?g ?st fresh_response new_world)"
    by simp
  from ck a b c show ?thesis by blast
qed
section \<open>Properties of the filter chain\<close>

lemma matchString_falsy_params:
  "\<not> truthy (fst (matchString dec u ps h e)) \<Longrightarrow> snd (matchString dec u ps h e) = ps"
  by (auto simp: matchString_def Let_def split: if_splits mresult.splits)

lemma match_array_falsy_params:
  "\<not> truthy (fst (match_array dec u ps h es)) \<Longrightarrow> snd (match_array dec u ps h es) = ps"
proof (induction es arbitrary: ps)
  case Nil
  then show ?case by simp
next
  case (Cons e es)
  obtain r ps' where ms: "matchString dec u ps h e = (r, ps')" by (cases "matchString dec u ps h e")
  with Cons.prems have nt: "\<not> truthy r" by (auto split: if_splits)
  with ms matchString_falsy_params[of dec u ps h e] have "ps' = ps" by simp
  with Cons ms nt show ?case by simp
qed

lemma match_falsy_request:
  "\<not> truthy (fst (match dec m req h)) \<Longrightarrow> snd (match dec m req h) = req"
proof (cases "expression m")
  case (EString e)
  assume nt: "\<not> truthy (fst (match dec m req h))"
  show ?thesis
  proof (cases "e = []")
    case True
    with EString show ?thesis by (simp add: match_def)
  next
    case False
    obtain r ps where ms: "matchString dec (url req) (params req) h e = (r, ps)"
      by (cases "matchString dec (url req) (params req) h e")
    with EString False nt have "\<not> truthy r" by (simp add: match_def)
    with matchString_falsy_params[of dec "url req" "params req" h e] ms have "ps = params req"
      by simp
    with EString False ms show ?thesis by (simp add: match_def)
  qed
next
  case (EArray es)
  assume nt: "\<not> truthy (fst (match dec m req h))"
  obtain r ps where ms: "match_array dec (url req) (params req) h es = (r, ps)"
    by (cases "match_array dec (url req) (params req) h es")
  with EArray nt have "\<not> truthy r" by (simp add: match_def)
  with match_array_falsy_params[of dec "url req" "params req" h es] ms have "ps = params req"
    by simp
  with EArray ms show ?thesis by (simp add: match_def)
qed (simp_all add: match_def)

lemma next_past_end:
  "length filters \<le> i \<Longrightarrow> FilterChain_next dec filters i req = (Done, Suc i, req)"
  by (simp add: FilterChain_next.simps)

lemma next_match:
  "i < length filters \<Longrightarrow> truthy (fst (match dec (filters ! i) req False)) \<Longrightarrow>
   FilterChain_next dec filters i req = (Run (filters ! i), Suc i, snd (match dec (filters ! i) req False))"
proof -
  assume a: "i < length filters" and b: "truthy (fst (match dec (filters ! i) req False))"
  obtain r req' where m: "match dec (filters ! i) req False = (r, req')"
    by (cases "match dec (filters ! i) req False")
  with a b show ?thesis
    by (subst FilterChain_next.simps) (simp add: Let_def)
qed

lemma next_no_match:
  "i < length filters \<Longrightarrow> \<not> truthy (fst (match dec (filters ! i) req False)) \<Longrightarrow>
   FilterChain_next dec filters i req = FilterChain_next dec filters (Suc i) req"
proof -
  assume a: "i < length filters" and b: "\<not> truthy (fst (match dec (filters ! i) req False))"
  obtain r req' where m: "match dec (filters ! i) req False = (r, req')"
    by (cases "match dec (filters ! i) req False")
  with match_falsy_request[OF b] b have "req' = req" "\<not> truthy r" by simp_all
  with a m show ?thesis
    by (subst FilterChain_next.simps) (simp add: Let_def)
qed

lemma next_none_match:
  "\<forall>j. i \<le> j \<and> j < length filters \<longrightarrow> \<not> truthy (fst (match dec (filters ! j) req False)) \<Longrightarrow>
   FilterChain_next dec filters i req = (Done, Suc (max i (length filters)), req)"
proof (induction "length filters - i" arbitrary: i)
  case 0
  then have "length filters \<le> i" by simp
  then show ?case by (simp add: max_def next_past_end)
next
  case (Suc d)
  then have lt: "i < length filters" by simp
  from Suc.prems lt have nm: "\<not> truthy (fst (match dec (filters ! i) req False))" by simp
  have "FilterChain_next dec filters (Suc i) req = (Done, Suc (max (Suc i) (length filters)), req)"
    using Suc.hyps(2) Suc.prems by (intro Suc.hyps(1)) auto
  with next_no_match[OF lt nm] lt show ?case by (simp add: max_def)
qed

text \<open>
  Claim C3. One call of \<^verbatim>\<open>next()\<close> on a chain at index \<open>i\<close> reads the rule
  at \<open>i\<close> and moves the index on. When no rule is left it calls the callback
  of the chain and leaves the index at \<open>i + 1\<close>; the callback is the handler
  dispatch, and the static file handler when no handler matches. When the
  rule at \<open>i\<close> matches the request, the rule goes through \<^verbatim>\<open>Parser\<close> and the
  index is left at \<open>i + 1\<close>: no further rule is tried by this call. When the
  rule does not match, the call does what a call at \<open>i + 1\<close> does.
\<close>

theorem FilterChain_next_step:
  "(length filters \<le> i \<longrightarrow>
      next_call P S st filters handlers n i req res w = (chain_cb P S st handlers n req res w, Suc i))
   \<and> (i < length filters \<and> truthy (fst (match (decodeURIComponent P) (filters ! i) req False)) \<longrightarrow>
      next_call P S st filters handlers n i req res w =
        (Some (Parser P S st (filters ! i) (snd (match (decodeURIComponent P) (filters ! i) req False)) res w),
         Suc i))
   \<and> (i < length filters \<and> \<not> truthy (fst (match (decodeURIComponent P) (filters ! i) req False)) \<longrightarrow>
      next_call P S st filters handlers n i req res w =
        next_call P S st filters handlers n (Suc i) req res w)
   \<and> (\<forall>req'. Handler_handle P S st handlers req res w = Inr (None, req') \<longrightarrow>
        chain_cb P S st handlers n req res w = fileHandler P S st n req' res w)
   \<and> (\<forall>out req'. Handler_handle P S st handlers req res w = Inr (Some out, req') \<longrightarrow>
        chain_cb P S st handlers n req res w = Some (Inr out))"
proof (intro conjI impI allI)
  assume "length filters \<le> i"
  then show "next_call P S st filters handlers n i req res w = (chain_cb P S st handlers n req res w, Suc i)"
    by (simp add: next_call_def next_past_end)
next
  assume "i < length filters \<and> truthy (fst (match (decodeURIComponent P) (filters ! i) req False))"
  then show "next_call P S st filters handlers n i req res w =
        (Some (Parser P S st (filters ! i) (snd (match (decodeURIComponent P) (filters ! i) req False)) res w),
         Suc i)"
    by (simp add: next_call_def next_match)
next
  assume "i < length filters \<and> \<not> truthy (fst (match (decodeURIComponent P) (filters ! i) req False))"
  then show "next_call P S st filters handlers n i req res w =
        next_call P S st filters handlers n (Suc i) req res w"
    by (simp add: next_call_def next_no_match)
next
  fix req' assume "Handler_handle P S st handlers req res w = Inr (None, req')"
  then show "chain_cb P S st handlers n req res w = fileHandler P S st n req' res w"
    by (simp add: chain_cb_def)
next
  fix out req' assume "Handler_handle P S st handlers req res w = Inr (Some out, req')"
  then show "chain_cb P S st handlers n req res w = Some (Inr out)"
    by (simp add: chain_cb_def)
qed

lemma sample_no_match:
  "\<not> truthy (fst (match Some (sample_filters ! 0) (sample_request ''/index.html'' hs d) False))"
  by (simp add: sample_filters_def sample_mapper_def sample_request_def match_def matchString_def
      indexOf_def)

lemma sample_match:
  "truthy (fst (match Some (sample_filters ! 1) (sample_request ''/index.html'' hs d) False))"
  by (simp add: sample_filters_def sample_mapper_def sample_request_def match_def matchString_def
      indexOf_def)

lemma sample_match_req:
  "snd (match Some (sample_filters ! 1) (sample_request ''/index.html'' hs d) False)
     = sample_request ''/index.html'' hs d"
  by (simp add: sample_filters_def sample_mapper_def sample_request_def match_def matchString_def
      indexOf_def)

theorem FilterChain_next_step_witness:
  "next_call sample_platform (MemoryStore (Settings [] [])) (Settings [] []) sample_filters [] 1 0
      (sample_request ''/index.html'' [] []) fresh_response new_world
     = (Some (Parser sample_platform (MemoryStore (Settings [] [])) (Settings [] []) (sample_filters ! 1)
                (sample_request ''/index.html'' [] []) fresh_response new_world), 2)
   \<and> next_call sample_platform (MemoryStore (Settings [] [])) (Settings [] []) sample_filters [] 1 2
      (sample_request ''/index.html'' [] []) fresh_response new_world
     = (chain_cb sample_platform (MemoryStore (Settings [] [])) (Settings [] []) [] 1
          (sample_request ''/index.html'' [] []) fresh_response new_world, 3)"
proof -
  have dec: "decodeURIComponent sample_platform = Some" by (simp add: sample_platform_def)
  have len: "length sample_filters = 2" by (simp add: sample_filters_def)
  note T0 = FilterChain_next_step[of sample_filters 0 sample_platform "MemoryStore (Settings [] [])" "Settings [] []" "[]" 1
      "sample_request ''/index.html'' [] []" fresh_response new_world]
  note T1 = FilterChain_next_step[of sample_filters 1 sample_platform "MemoryStore (Settings [] [])" "Settings [] []" "[]" 1
      "sample_request ''/index.html'' [] []" fresh_response new_world]
  note T2 = FilterChain_next_step[of sample_filters 2 sample_platform "MemoryStore (Settings [] [])" "Settings [] []" "[]" 1
      "sample_request ''/index.html'' [] []" fresh_response new_world]
  from T0 have a: "next_call sample_platform (MemoryStore (Settings [] [])) (Settings [] []) sample_filters [] 1 0
      (sample_request ''/index.html'' [] []) fresh_response new_world
     = next_call sample_platform (MemoryStore (Settings [] [])) (Settings [] []) sample_filters [] 1 (Suc 0)
      (sample_request ''/index.html'' [] []) fresh_response new_world"
    using sample_no_match[of "[]" "[]"] by (simp add: dec len)
  from T1 have b: "next_call sample_platform (MemoryStore (Settings [] [])) (Settings [] []) sample_filters [] 1 (Suc 0)
      (sample_request ''/index.html'' [] []) fresh_response new_world
     = (Some (Parser sample_platform (MemoryStore (Settings [] [])) (Settings [] []) (sample_filters ! 1)
                (sample_request ''/index.html'' [] []) fresh_response new_world), 2)"
    using sample_match[of "[]" "[]"] sample_match_req[of "[]" "[]"] by (simp add: dec len)
  from T2 have c: "next_call sample_platform (MemoryStore (Settings [] [])) (Settings [] []) sample_filters [] 1 2
      (sample_request ''/index.html'' [] []) fresh_response new_world
     = (chain_cb sample_platform (MemoryStore (Settings [] [])) (Settings [] []) [] 1
          (sample_request ''/index.html'' [] []) fresh_response new_world, 3)"
    by (simp add: len)
  from a b c show ?thesis by simp
qed

section \<open>Properties of the parsing pipeline\<close>

text \<open>
  A store lets \<^verbatim>\<open>init\<close> return when its \<^verbatim>\<open>del\<close> does not throw where \<^verbatim>\<open>init\<close>
  calls it: the memory store, whose \<^verbatim>\<open>del\<close> follows a \<^verbatim>\<open>get\<close> there, and every
  store with a \<^verbatim>\<open>del\<close> that never throws (\<^verbatim>\<open>FileStore\<close>, which only starts the
  removal of a file).
\<close>

lemma resetSession_returns:
  "st_del S v wz = Inr w2 \<Longrightarrow> \<exists>sp res' w'. resetSession S clk rnd g st v res wz = Inr (sp, res', w')"
  by (cases "setSession clk rnd g st res w2") (simp add: resetSession_def)

lemma init_returns:
  assumes "req_cookies req = Some cookies"
    and ok: "S = MemoryStore st0 \<or> (\<forall>k w0. \<exists>w'. st_del S k w0 = Inr w')"
  shows "\<exists>sp res' w'. init S clk rnd g st req res w = Inr (sp, res', w')"
proof -
  have gs: "\<exists>sp res' w'. getSession S clk rnd g st v res (fst (st_get S v w))
               (snd (st_get S v w)) = Inr (sp, res', w')" for v
  proof -
    let ?x = "fst (st_get S v w)" and ?w1 = "snd (st_get S v w)"
    show ?thesis
    proof (cases "\<exists>s t. ?x = SObj s \<and> lastAccessTime s = Some t \<and> t \<noteq> 0
                   \<and> clk (tick ?w1) - t \<le> sessionTimeout st")
      case True
      with getSession_cases[of ?x clk ?w1 st S rnd g v res]
      have "\<exists>s. ?x = SObj s \<and>
          getSession S clk rnd g st v res ?x ?w1 =
            Inr (\<lparr> sid = v, val = s\<lparr>lastAccessTime := Some (clk (Suc (tick ?w1)))\<rparr> \<rparr>, res,
                 st_touch S v (s\<lparr>lastAccessTime := Some (clk (Suc (tick ?w1)))\<rparr>)
                   (?w1\<lparr>tick := Suc (Suc (tick ?w1))\<rparr>))"
        by (simp only: if_P if_True)
      then show ?thesis by blast
    next
      case False
      with getSession_cases[of ?x clk ?w1 st S rnd g v res]
      have "\<exists>wz. (wz = ?w1 \<or> wz = ?w1\<lparr>tick := Suc (tick ?w1)\<rparr>) \<and>
          getSession S clk rnd g st v res ?x ?w1 = resetSession S clk rnd g st v res wz"
        by (simp only: if_not_P if_False)
      then obtain wz where wz: "wz = ?w1 \<or> wz = ?w1\<lparr>tick := Suc (tick ?w1)\<rparr>"
        and g: "getSession S clk rnd g st v res ?x ?w1 = resetSession S clk rnd g st v res wz"
        by blast
      have "\<exists>w2. st_del S v wz = Inr w2"
      proof (cases "S = MemoryStore st0")
        case True
        with get_list_Some[of st0 v w] have "\<exists>l. list ?w1 = Some l"
          by (simp add: MemoryStore_def)
        with wz obtain l where "list wz = Some l" by auto
        with True show ?thesis by (simp add: MemoryStore_def MemoryStore_del_def)
      next
        case False
        with ok show ?thesis by blast
      qed
      then obtain w2 where "st_del S v wz = Inr w2" ..
      from resetSession_returns[OF this] g show ?thesis by simp
    qed
  qed
  show ?thesis
  proof (cases "cookies ''_wsid''")
    case None
    with assms(1) show ?thesis
      by (cases "setSession clk rnd g st res w") (simp add: init_def)
  next
    case (Some v)
    show ?thesis
    proof (cases "v = [] \<or> int (length v) \<noteq> sessionLength st")
      case True
      with assms(1) Some show ?thesis
        by (cases "setSession clk rnd g st res w") (auto simp: init_def)
    next
      case False
      with assms(1) Some have "init S clk rnd g st req res w =
          getSession S clk rnd g st v res (fst (st_get S v w)) (snd (st_get S v w))"
        by (simp add: init_def split: prod.splits)
      with gs[of v] show ?thesis by simp
    qed
  qed
qed

lemma parseSession_invokes:
  assumes "req_cookies req \<noteq> None"
    and ok: "S = MemoryStore st0 \<or> (\<forall>k w0. \<exists>w'. st_del S k w0 = Inr w')"
  shows "\<exists>req' rw. parseSession P S st m req res w = Inr (Pipeline Invoke m req' rw)
           \<and> req_body req' = req_body req"
proof (cases "m_session m \<and> req_session req = None")
  case True
  from assms obtain c where "req_cookies req = Some c" by auto
  from init_returns[OF this ok, of "clock P" "random P" "toUTCString P" st res w]
  obtain sp res' w' where "init S (clock P) (random P) (toUTCString P) st req res w = Inr (sp, res', w')"
    by blast
  with True show ?thesis by (simp add: parseSession_def handle_def)
next
  case False
  then show ?thesis by (auto simp: parseSession_def handle_def)
qed

text \<open>
  Claim C8. A rule with post mode \<^verbatim>\<open>json\<close> or \<^verbatim>\<open>qs\<close> and a request without a
  body attached, whose data the decoder of that mode rejects by throwing:
  the body stage attaches the empty object \<^verbatim>\<open>{}\<close> and hands the request to
  the session stage, whatever the session store. With the memory store, or
  with any session store whose \<^verbatim>\<open>del\<close> does not throw, and with the cookies
  of the request parsed, the stages that follow end in the call of the
  handler of the rule, and the request it is called with carries \<^verbatim>\<open>{}\<close> as
  its body; the same holds of the whole pipeline \<^verbatim>\<open>Parser\<close> for a rule
  without file upload whose \<^verbatim>\<open>before\<close> check, if it has one, accepts the
  request.
\<close>

theorem parseBody_lenient:
  assumes post: "(m_post m = ''json'' \<and> JSON_parse P (if stream req = [] then ''{}'' else stream req) = None)
                 \<or> (m_post m = ''qs'' \<and> qs_parse P (stream req) = None)"
    and body: "req_body req = None"
  shows "parseBody P S st m req res w = parseSession P S st m (req\<lparr>req_body := Some (JObj [])\<rparr>) res w
       \<and> (S = MemoryStore st \<or> (\<forall>k w0. \<exists>w'. st_del S k w0 = Inr w') \<longrightarrow>
          (req_cookies req \<noteq> None \<longrightarrow>
            (\<exists>req' rw. parseBody P S st m req res w = Inr (Pipeline Invoke m req' rw)
               \<and> req_body req' = Some (JObj [])))
          \<and> (\<not> m_file m \<and> (case m_before m of None \<Rightarrow> True
                            | Some f \<Rightarrow> f (req\<lparr>req_cookies := Some (cookies_of req)\<rparr>) res) \<longrightarrow>
            (\<exists>req' rw. Parser P S st m req res w = Inr (Pipeline Invoke m req' rw)
               \<and> req_body req' = Some (JObj []))))"
proof (intro conjI impI)
  from post have ne: "m_post m \<noteq> []" by auto
  from post have b: "(if m_post m = ''json'' then
                  (case JSON_parse P (if stream req = [] then ''{}'' else stream req) of
                     Some j \<Rightarrow> j | None \<Rightarrow> JObj [])
                else if m_post m = ''qs'' then
                  (case qs_parse P (stream req) of Some j \<Rightarrow> j | None \<Rightarrow> JObj [])
                else JStr (stream req)) = JObj []"
    by auto
  show stage: "parseBody P S st m req res w = parseSession P S st m (req\<lparr>req_body := Some (JObj [])\<rparr>) res w"
    using ne body b by (simp add: parseBody_def Let_def)
  {
    fix r :: request
    assume ok: "S = MemoryStore st \<or> (\<forall>k w0. \<exists>w'. st_del S k w0 = Inr w')"
      and c: "req_cookies r \<noteq> None" and rb: "req_body r = None"
      and p: "(m_post m = ''json'' \<and> JSON_parse P (if stream r = [] then ''{}'' else stream r) = None)
                 \<or> (m_post m = ''qs'' \<and> qs_parse P (stream r) = None)"
    from p have ne': "m_post m \<noteq> []" by auto
    from p have b': "(if m_post m = ''json'' then
                  (case JSON_parse P (if stream r = [] then ''{}'' else stream r) of
                     Some j \<Rightarrow> j | None \<Rightarrow> JObj [])
                else if m_post m = ''qs'' then
                  (case qs_parse P (stream r) of Some j \<Rightarrow> j | None \<Rightarrow> JObj [])
                else JStr (stream r)) = JObj []"
      by auto
    have st': "parseBody P S st m r res w = parseSession P S st m (r\<lparr>req_body := Some (JObj [])\<rparr>) res w"
      using ne' rb b' by (simp add: parseBody_def Let_def)
    from c have "req_cookies (r\<lparr>req_body := Some (JObj [])\<rparr>) \<noteq> None" by simp
    from parseSession_invokes[OF this ok, of P st m res w] st'
    have "\<exists>req' rw. parseBody P S st m r res w = Inr (Pipeline Invoke m req' rw)
               \<and> req_body req' = Some (JObj [])" by auto
  } note run = this
  {
    assume ok: "S = MemoryStore st \<or> (\<forall>k w0. \<exists>w'. st_del S k w0 = Inr w')"
      and "req_cookies req \<noteq> None"
    from run[OF ok this(2) body post]
    show "\<exists>req' rw. parseBody P S st m req res w = Inr (Pipeline Invoke m req' rw)
               \<and> req_body req' = Some (JObj [])" .
  }
  {
    assume ok: "S = MemoryStore st \<or> (\<forall>k w0. \<exists>w'. st_del S k w0 = Inr w')"
      and h: "\<not> m_file m \<and> (case m_before m of None \<Rightarrow> True
                            | Some f \<Rightarrow> f (req\<lparr>req_cookies := Some (cookies_of req)\<rparr>) res)"
    let ?r = "req\<lparr>req_cookies := Some (cookies_of req)\<rparr>"
    from h have "Parser P S st m req res w = parseBody P S st m ?r res w"
      by (auto simp: Parser_def parseCookies_def parseFile_def split: option.splits)
    moreover have "\<exists>req' rw. parseBody P S st m ?r res w = Inr (Pipeline Invoke m req' rw)
               \<and> req_body req' = Some (JObj [])"
      using post body by (intro run[OF ok]) (auto split: if_splits)
    ultimately show "\<exists>req' rw. Parser P S st m req res w = Inr (Pipeline Invoke m req' rw)
               \<and> req_body req' = Some (JObj [])" by simp
  }
qed

theorem parseBody_lenient_witness:
  "m_post (sample_mapper (EString ''/api'') ''json'') = ''json''
   \<and> JSON_parse sample_platform ''{broken'' = None
   \<and> (\<exists>req' rw. Parser sample_platform (MemoryStore (Settings [] [])) (Settings [] []) (sample_mapper (EString ''/api'') ''json'')
                  (sample_request ''/api'' [] ''{broken'') fresh_response new_world
                = Inr (Pipeline Invoke (sample_mapper (EString ''/api'') ''json'') req' rw)
              \<and> req_body req' = Some (JObj []))"
proof -
  let ?m = "sample_mapper (EString ''/api'') ''json''"
  let ?req = "sample_request ''/api'' [] ''{broken''"
  have p: "m_post ?m = ''json''" by (simp add: sample_mapper_def)
  have j: "JSON_parse sample_platform ''{broken'' = None" by (simp add: sample_platform_def)
  have s: "stream ?req = ''{broken''" by (simp add: sample_request_def)
  have post: "(m_post ?m = ''json'' \<and> JSON_parse sample_platform (if stream ?req = [] then ''{}'' else stream ?req) = None)
                 \<or> (m_post ?m = ''qs'' \<and> qs_parse sample_platform (stream ?req) = None)"
    by (simp add: p j s)
  have body: "req_body ?req = None" by (simp add: sample_request_def)
  have h: "\<not> m_file ?m \<and> (case m_before ?m of None \<Rightarrow> True
                            | Some f \<Rightarrow> f (?req\<lparr>req_cookies := Some (cookies_of ?req)\<rparr>) fresh_response)"
    by (simp add: sample_mapper_def)
  from parseBody_lenient[OF post body, of "MemoryStore (Settings [] [])" "Settings [] []"
      fresh_response new_world] h
  have "\<exists>req' rw. Parser sample_platform (MemoryStore (Settings [] [])) (Settings [] []) ?m ?req fresh_response new_world
                = Inr (Pipeline Invoke ?m req' rw) \<and> req_body req' = Some (JObj [])"
    by blast
  with p j show ?thesis by blast
qed

section \<open>Properties of the static file handler and of the 404 fallback\<close>

lemma res_end_props:
  assumes "\<not> finished res"
  shows "statusCode (fst (res_end S req data res w)) = statusCode res
       \<and> written (fst (res_end S req data res w)) = written res @ data
       \<and> finished (fst (res_end S req data res w))
       \<and> (headersSent res \<longrightarrow> resHeaders (fst (res_end S req data res w)) = resHeaders res)"
  using assms by (auto simp: res_end_def Let_def split: option.splits)

lemma writeHead_props:
  assumes "\<not> finished res"
  shows "statusCode (writeHead status hs res) = status
       \<and> written (writeHead status hs res) = written res
       \<and> \<not> finished (writeHead status hs res)
       \<and> headersSent (writeHead status hs res)
       \<and> resHeaders (writeHead status hs res) = resHeaders res ++ map_of hs"
  using assms by (simp add: writeHead_def)

text \<open>
  \<^verbatim>\<open>Template.render\<close> throws exactly when the lookup of the template in the
  cache reads a property the pool inherits: template caching is on, the
  name is one of \<^verbatim>\<open>Object.prototype\<close>, and the pool has no text of its own
  under it.
\<close>

lemma render_throws:
  "render P st req (NameModel n m) w =
     (if templateCache st \<and> inherited n \<and> pool_own w n = None then Inl TypeError
      else Inr (render_chunk P (fst (replace_includes P st 0
                                  (case fst (getFile_cb P st n w) of TText t \<Rightarrow> t | TInherited \<Rightarrow> [])
                                  (snd (getFile_cb P st n w))))
                  m
                  (snd (replace_includes P st 0
                          (case fst (getFile_cb P st n w) of TText t \<Rightarrow> t | TInherited \<Rightarrow> [])
                          (snd (getFile_cb P st n w)))),
                snd (replace_includes P st 0
                       (case fst (getFile_cb P st n w) of TText t \<Rightarrow> t | TInherited \<Rightarrow> [])
                       (snd (getFile_cb P st n w)))))"
  by (auto simp: render_def getTemplate_def getFile_cb_def in_cache_def Let_def case_prod_beta
      split: option.splits)

lemma write404_props:
  assumes "\<not> finished res"
    and "\<not> (notFound404 st \<noteq> [] \<and> templateCache st \<and> inherited (notFound404 st)
            \<and> pool_own w (notFound404 st) = None)"
  shows "\<exists>r w'. write404 P S st req res w = Inr (r, w')
       \<and> statusCode r = 404
       \<and> finished r
       \<and> (if notFound404 st \<noteq> []
          then \<exists>out wr. render P st req (NameModel (notFound404 st) None) w = Inr (out, wr)
                    \<and> written r = written res @ out
          else written r = written res @ ''File not found!'')"
proof -
  let ?r = "writeHead 404 [(''Content-Type'', HStr ''text/html'')] res"
  from writeHead_props[OF assms(1), of 404 "[(''Content-Type'', HStr ''text/html'')]"]
  have nf: "\<not> finished ?r" and sc: "statusCode ?r = 404" and wr: "written ?r = written res"
    by simp_all
  show ?thesis
  proof (cases "notFound404 st \<noteq> []")
    case True
    with assms(2) render_throws[of P st req "notFound404 st" None w]
    obtain out w' where rd: "render P st req (NameModel (notFound404 st) None) w = Inr (out, w')"
      by (auto split: if_splits)
    with True have "write404 P S st req res w = Inr (res_end S req out ?r w')"
      by (simp add: write404_def Let_def)
    with res_end_props[OF nf, of S req out w'] sc wr True rd show ?thesis
      by (cases "res_end S req out ?r w'") auto
  next
    case False
    then have "write404 P S st req res w = Inr (res_end S req ''File not found!'' ?r w)"
      by (simp add: write404_def Let_def)
    with res_end_props[OF nf, of S req "''File not found!''" w] sc wr False show ?thesis
      by (cases "res_end S req ''File not found!'' ?r w") auto
  qed
qed

lemma Handler_handle_none:
  "\<forall>m\<in>set handlers. \<not> truthy (fst (match (decodeURIComponent P) m req True)) \<Longrightarrow>
   Handler_handle P S st handlers req res w = Inr (None, req)"
proof (induction handlers)
  case Nil
  then show ?case by simp
next
  case (Cons m ms)
  then have nm: "\<not> truthy (fst (match (decodeURIComponent P) m req True))" by simp
  obtain r req' where mm: "match (decodeURIComponent P) m req True = (r, req')"
    by (cases "match (decodeURIComponent P) m req True")
  with nm match_falsy_request[OF nm] have "\<not> truthy r" "req' = req" by simp_all
  with mm Cons show ?case by simp
qed

text \<open>
  A request that no filter matches, that no registered handler matches, and
  whose path (without the query string, under the home directory) cannot be
  stat'ed is answered by \<^verbatim>\<open>write404\<close>.
\<close>

lemma requestHandler_write404:
  assumes nofilter: "\<forall>m\<in>set filters.
            \<not> truthy (fst (match (decodeURIComponent P) m (req\<lparr>params := Map.empty\<rparr>) False))"
    and nohandler: "\<forall>m\<in>set handlers.
            \<not> truthy (fst (match (decodeURIComponent P) m (req\<lparr>params := Map.empty\<rparr>) True))"
    and nofile: "fs_stat P (path_join P (home st) (strip_query (url req))) = None"
  shows "requestHandler P S st filters handlers (Suc n) req res w
          = Some (reply404 P S st (req\<lparr>params := Map.empty\<rparr>) res w)"
proof -
  let ?req = "req\<lparr>params := Map.empty\<rparr>"
  from nofilter have "\<forall>j. 0 \<le> j \<and> j < length filters \<longrightarrow>
        \<not> truthy (fst (match (decodeURIComponent P) (filters ! j) ?req False))"
    by simp
  from next_none_match[OF this]
  have ch: "FilterChain_next (decodeURIComponent P) filters 0 ?req = (Done, Suc (max 0 (length filters)), ?req)" .
  have hh: "Handler_handle P S st handlers ?req res w = Inr (None, ?req)"
    using nohandler by (rule Handler_handle_none)
  have fh: "fileHandler P S st (Suc n) ?req res w = Some (reply404 P S st ?req res w)"
    using nofile by (simp add: fileHandler_def Let_def)
  show ?thesis
    by (simp add: requestHandler_def next_call_def ch chain_cb_def hh fh)
qed

lemma sample_filters_miss:
  "\<forall>m\<in>set sample_filters.
     \<not> truthy (fst (match (decodeURIComponent sample_platform) m
                      ((sample_request ''/missing'' [] [])\<lparr>params := Map.empty\<rparr>) False))"
  by (simp add: sample_filters_def sample_mapper_def sample_request_def match_def matchString_def
      indexOf_def)

lemma sample_handlers_miss:
  "\<forall>m\<in>set [sample_mapper (EString ''/api'') []].
     \<not> truthy (fst (match (decodeURIComponent sample_platform) m
                      ((sample_request ''/missing'' [] [])\<lparr>params := Map.empty\<rparr>) True))"
  by (simp add: sample_mapper_def sample_request_def match_def matchString_def indexOf_def)

lemma sample_stat_miss:
  "fs_stat sample_platform
     (path_join sample_platform (home (Settings [] [])) (strip_query (url (sample_request ''/missing'' [] []))))
   = None"
  by (simp add: sample_platform_def Settings_def sample_request_def strip_query_def indexOf_def)

text \<open>
  Claim C9, as amended. A request that no filter matches, that no
  registered handler matches, and whose path (without the query string,
  under the home directory) cannot be stat'ed: provided the lookup of the
  template named by the setting \<^verbatim>\<open>404\<close> does not read a property the
  template pool inherits from \<^verbatim>\<open>Object.prototype\<close>, the response, new when
  the request comes in, is ended with status 404, and its body is the text
  the custom error template renders to when the setting \<^verbatim>\<open>404\<close> is not
  empty, and the text \<^verbatim>\<open>File not found!\<close> otherwise.
\<close>

theorem requestHandler_404:
  assumes nofilter: "\<forall>m\<in>set filters.
            \<not> truthy (fst (match (decodeURIComponent P) m (req\<lparr>params := Map.empty\<rparr>) False))"
    and nohandler: "\<forall>m\<in>set handlers.
            \<not> truthy (fst (match (decodeURIComponent P) m (req\<lparr>params := Map.empty\<rparr>) True))"
    and nofile: "fs_stat P (path_join P (home st) (strip_query (url req))) = None"
    and fresh: "\<not> finished res \<and> written res = []"
    and lookup: "\<not> (notFound404 st \<noteq> [] \<and> templateCache st \<and> inherited (notFound404 st)
                    \<and> pool_own w (notFound404 st) = None)"
  shows "\<exists>res' w'. requestHandler P S st filters handlers (Suc n) req res w = Some (Inr (Reply (res', w')))
           \<and> statusCode res' = 404
           \<and> finished res'
           \<and> (if notFound404 st \<noteq> []
              then \<exists>wr. render P st (req\<lparr>params := Map.empty\<rparr>) (NameModel (notFound404 st) None) w
                          = Inr (written res', wr)
              else written res' = ''File not found!'')"
proof -
  let ?req = "req\<lparr>params := Map.empty\<rparr>"
  from requestHandler_write404[OF nofilter nohandler nofile]
  have rh: "requestHandler P S st filters handlers (Suc n) req res w
          = Some (reply404 P S st ?req res w)" .
  from fresh have nf: "\<not> finished res" by simp
  from write404_props[where P = P and S = S and req = ?req, OF nf lookup]
  obtain r w' where w4: "write404 P S st ?req res w = Inr (r, w')"
    and sc: "statusCode r = 404" and fi: "finished r"
    and bd: "if notFound404 st \<noteq> []
          then \<exists>out wr. render P st ?req (NameModel (notFound404 st) None) w = Inr (out, wr)
                    \<and> written r = written res @ out
          else written r = written res @ ''File not found!''"
    by blast
  from bd fresh have bd': "if notFound404 st \<noteq> []
              then \<exists>wr. render P st ?req (NameModel (notFound404 st) None) w = Inr (written r, wr)
              else written r = ''File not found!''"
    by (auto split: if_splits)
  from rh w4 have "requestHandler P S st filters handlers (Suc n) req res w = Some (Inr (Reply (r, w')))"
    by (simp add: reply404_def)
  with sc fi bd' show ?thesis by blast
qed

text \<open>
  The claim as stated fails. The setting \<^verbatim>\<open>404\<close> is \<^verbatim>\<open>toString\<close>, template
  caching is on, and the request \<^verbatim>\<open>/missing\<close> matches no filter and no
  handler and names no file: the lookup of the template in the cache reads
  the function the pool inherits under that name, the rendering throws a
  TypeError, and the response gets no body.
\<close>

theorem requestHandler_404_counterexample:
  "notFound404 ((Settings [] [])\<lparr>notFound404 := ''toString''\<rparr>) \<noteq> []
   \<and> templateCache ((Settings [] [])\<lparr>notFound404 := ''toString''\<rparr>)
   \<and> length sample_filters = 2
   \<and> \<not> truthy (fst (match (decodeURIComponent sample_platform) (sample_filters ! 0)
                       ((sample_request ''/missing'' [] [])\<lparr>params := Map.empty\<rparr>) False))
   \<and> \<not> truthy (fst (match (decodeURIComponent sample_platform) (sample_filters ! 1)
                       ((sample_request ''/missing'' [] [])\<lparr>params := Map.empty\<rparr>) False))
   \<and> \<not> truthy (fst (match (decodeURIComponent sample_platform) (sample_mapper (EString ''/api'') [])
                       ((sample_request ''/missing'' [] [])\<lparr>params := Map.empty\<rparr>) True))
   \<and> fs_stat sample_platform
        (path_join sample_platform (home ((Settings [] [])\<lparr>notFound404 := ''toString''\<rparr>))
           (strip_query (url (sample_request ''/missing'' [] [])))) = None
   \<and> requestHandler sample_platform (MemoryStore (Settings [] []))
        ((Settings [] [])\<lparr>notFound404 := ''toString''\<rparr>) sample_filters
        [sample_mapper (EString ''/api'') []] 1
        (sample_request ''/missing'' [] []) fresh_response new_world
      = Some (Inl TypeError)"
proof -
  let ?st = "(Settings [] [])\<lparr>notFound404 := ''toString''\<rparr>"
  let ?req = "(sample_request ''/missing'' [] [])\<lparr>params := Map.empty\<rparr>"
  have a: "notFound404 ?st \<noteq> []" "templateCache ?st" by (simp_all add: Settings_def)
  have len: "length sample_filters = 2" by (simp add: sample_filters_def)
  from sample_filters_miss have
    f0: "\<not> truthy (fst (match (decodeURIComponent sample_platform) (sample_filters ! 0) ?req False))"
    and f1: "\<not> truthy (fst (match (decodeURIComponent sample_platform) (sample_filters ! 1) ?req False))"
    by (simp_all add: sample_filters_def)
  from sample_handlers_miss have
    h0: "\<not> truthy (fst (match (decodeURIComponent sample_platform) (sample_mapper (EString ''/api'') [])
                         ?req True))"
    by simp
  have f: "fs_stat sample_platform
        (path_join sample_platform (home ?st) (strip_query (url (sample_request ''/missing'' [] [])))) = None"
    by (simp add: sample_platform_def Settings_def sample_request_def strip_query_def indexOf_def)
  have r: "render sample_platform ?st ?req (NameModel ''toString'' None) new_world = Inl TypeError"
    by (simp add: render_throws Settings_def new_world_def pool_own_def inherited_def
        Object_prototype_names_def)
  have "requestHandler sample_platform (MemoryStore (Settings [] [])) ?st sample_filters
        [sample_mapper (EString ''/api'') []] 1
        (sample_request ''/missing'' [] []) fresh_response new_world
      = Some (reply404 sample_platform (MemoryStore (Settings [] [])) ?st ?req fresh_response new_world)"
    using requestHandler_write404[where n = 0 and S = "MemoryStore (Settings [] [])"
        and res = fresh_response and w = new_world, OF sample_filters_miss sample_handlers_miss f]
    by simp
  also have "\<dots> = Some (Inl TypeError)"
    using r by (simp add: reply404_def write404_def)
  finally show ?thesis using a len f0 f1 h0 f by blast
qed

theorem requestHandler_404_witness:
  "\<exists>res' w'. requestHandler sample_platform (MemoryStore (Settings [] [])) (Settings [] []) sample_filters
                [sample_mapper (EString ''/api'') []] 1
                (sample_request ''/missing'' [] []) fresh_response new_world
              = Some (Inr (Reply (res', w')))
           \<and> statusCode res' = 404 \<and> finished res' \<and> written res' = ''File not found!''"
proof -
  have fresh: "\<not> finished fresh_response \<and> written fresh_response = []"
    by (simp add: fresh_response_def)
  have nt: "notFound404 (Settings [] []) = []" by (simp add: Settings_def)
  then have lk: "\<not> (notFound404 (Settings [] []) \<noteq> [] \<and> templateCache (Settings [] [])
                    \<and> inherited (notFound404 (Settings [] []))
                    \<and> pool_own new_world (notFound404 (Settings [] [])) = None)"
    by simp
  from requestHandler_404[where S = "MemoryStore (Settings [] [])" and n = 0,
      OF sample_filters_miss sample_handlers_miss sample_stat_miss fresh lk]
  show ?thesis by (simp add: nt)
qed

text \<open>
  What \<^verbatim>\<open>handlePath\<close> does for a file that exists and can be read, on a
  response that is new: a 304 without a body when caching is enabled and
  the date \<^verbatim>\<open>cacheTime\<close> is valid and not before the modification time, and
  otherwise a 200 with the content of the file and a \<^verbatim>\<open>Last-Modified\<close>
  header that holds the modification time.
\<close>

lemma handlePath_file:
  assumes st: "fs_stat P p = Some s" and f: "isFile s"
    and fresh: "\<not> finished res \<and> \<not> headersSent res"
    and rd: "fs_readFile P p = Some data"
  shows "\<exists>r w'. handlePath P S st (Suc n) req u p res w = Some (Inr (Reply (r, w')))
       \<and> finished r
       \<and> (if cache st \<and> (\<exists>c. cacheTime P req = Some c \<and> mtime s \<le> c)
          then statusCode r = 304 \<and> written r = written res
          else statusCode r = 200 \<and> written r = written res @ data
               \<and> resHeaders r ''Last-Modified'' = Some (HStr (toUTCString P (mtime s))))"
proof (cases "cache st \<and> (\<exists>c. cacheTime P req = Some c \<and> mtime s \<le> c)")
  case True
  then have c: "cache st \<and> (case cacheTime P req of None \<Rightarrow> False | Some c \<Rightarrow> mtime s \<le> c)"
    by auto
  let ?r = "writeHead 304 [] res"
  from fresh writeHead_props[of res 304 "[]"]
  have nf: "\<not> finished ?r" and sc: "statusCode ?r = 304" and wr: "written ?r = written res"
    by simp_all
  have hp: "handlePath P S st (Suc n) req u p res w = Some (Inr (Reply (res_end S req [] ?r w)))"
    using st f c by simp
  from res_end_props[OF nf, of S req "[]" w] sc wr hp True show ?thesis
    by (cases "res_end S req [] ?r w") auto
next
  case False
  then have c: "(cache st \<and> (case cacheTime P req of None \<Rightarrow> False | Some c \<Rightarrow> mtime s \<le> c)) = False"
    by (auto split: option.splits)
  let ?lm = "HStr (toUTCString P (mtime s))"
  let ?r1 = "res\<lparr>resHeaders := (resHeaders res)(''Last-Modified'' \<mapsto> ?lm)\<rparr>"
  let ?r2 = "writeHead 200 [] (res_type P p ?r1)"
  have sh: "setHeader ''Last-Modified'' ?lm res = Inr ?r1"
    using fresh by (simp add: setHeader_def)
  have t1: "\<not> finished (res_type P p ?r1)" "written (res_type P p ?r1) = written res"
    "resHeaders (res_type P p ?r1) ''Last-Modified'' = Some ?lm"
    using fresh by (simp_all add: res_type_def)
  from writeHead_props[OF t1(1), of 200 "[]"] t1
  have nf: "\<not> finished ?r2" and sc: "statusCode ?r2 = 200" and wr: "written ?r2 = written res"
    and hs: "headersSent ?r2" and lm: "resHeaders ?r2 ''Last-Modified'' = Some ?lm"
    by simp_all
  have hp: "handlePath P S st (Suc n) req u p res w = Some (Inr (Reply (res_end S req data ?r2 w)))"
    using st f sh rd by (simp add: writeFile_def c)
  from res_end_props[OF nf, of S req data w] sc wr hs lm hp False show ?thesis
    by (cases "res_end S req data ?r2 w") auto
qed

text \<open>
  Claim C7, evaluated on the code. The file \<^verbatim>\<open>old.html\<close> of the sample
  platform exists, can be read and was last modified at time 0 (the epoch);
  the request for it carries no \<^verbatim>\<open>If-Modified-Since\<close> header and caching is
  enabled. The answer is a 304 without a body: the absent header is read as
  the date 1 (\<^verbatim>\<open>new Date(undefined || 1)\<close>), and the file counts as unmodified
  since then.
\<close>

theorem fileHandler_epoch_file:
  "headers (sample_request ''/old.html'' [] []) ''if-modified-since'' = None
   \<and> fs_stat sample_platform ''.//old.html'' = Some \<lparr> isFile = True, isDirectory = False, mtime = 0 \<rparr>
   \<and> fs_readFile sample_platform ''.//old.html'' = Some ''<h1>old</h1>''
   \<and> cache (Settings [] [])
   \<and> (case fileHandler sample_platform (MemoryStore (Settings [] [])) (Settings [] []) 1
              (sample_request ''/old.html'' [] []) fresh_response new_world of
         Some (Inr (Reply (r, w'))) \<Rightarrow> statusCode r = 304 \<and> written r = [] \<and> finished r
       | _ \<Rightarrow> False)"
  by (simp add: fileHandler_def sample_platform_def Settings_def sample_request_def strip_query_def
      indexOf_def cacheTime_def res_end_def writeHead_def fresh_response_def header_truthy_def Let_def)


section \<open>Properties of the template cache\<close>

lemma in_cache_pool:
  "templatePool w' = templatePool w \<Longrightarrow> in_cache st w' x = in_cache st w x"
  by (simp add: in_cache_def pool_own_def)

lemma ready_pool:
  assumes "templatePool w' = templatePool w"
  shows "ready st w' x = ready st w x"
proof -
  have "in_cache st w' = in_cache st w"
    by (rule ext) (rule in_cache_pool[OF assms])
  with assms show ?thesis by (simp add: ready_def pool_own_def split: option.splits)
qed

text \<open>
  The include substitution leaves the pool and the default model as they
  are, and starts one read for every marker whose template is not cached.
\<close>

lemma replace_includes_state:
  "templatePool (snd (replace_includes P st k s w)) = templatePool w
   \<and> defaultModel (snd (replace_includes P st k s w)) = defaultModel w
   \<and> readLog (snd (replace_includes P st k s w))
       = readLog w @ map (template_path P st) (filter (\<lambda>i. \<not> in_cache st w i) (include_names k s))
   \<and> pending (snd (replace_includes P st k s w))
       = pending w @ filter (\<lambda>i. \<not> in_cache st w i) (include_names k s)"
proof (induction P st k s w rule: replace_includes.induct)
  case (1 P st skip w)
  then show ?case by simp
next
  case (2 P st skip c cs w)
  then show ?case by simp
next
  case (3 P st c cs w)
  show ?case
  proof (cases "match_include (c # cs)")
    case None
    with "3.IH"(1) show ?thesis by (simp add: case_prod_beta)
  next
    case (Some name)
    let ?w1 = "getFile_nocb P st name w"
    let ?k = "length includeBegin + length name + length includeAfter - 1"
    have p1: "templatePool ?w1 = templatePool w" by (simp add: getFile_nocb_def)
    have d1: "defaultModel ?w1 = defaultModel w" by (simp add: getFile_nocb_def)
    have r1: "readLog ?w1 = readLog w @ (if in_cache st w name then [] else [template_path P st name])"
      by (simp add: getFile_nocb_def)
    have e1: "pending ?w1 = pending w @ (if in_cache st w name then [] else [name])"
      by (simp add: getFile_nocb_def)
    have ic: "(\<lambda>i. \<not> in_cache st ?w1 i) = (\<lambda>i. \<not> in_cache st w i)"
      using in_cache_pool[OF p1, of st] by simp
    note IH = "3.IH"(2)[OF Some refl]
    have s: "snd (replace_includes P st 0 (c # cs) w) = snd (replace_includes P st ?k cs ?w1)"
      using Some by (simp add: case_prod_beta Let_def)
    from IH p1 d1 r1 e1 Some show ?thesis
      unfolding s ic by simp
  qed
qed

lemma replace_includes_cached:
  assumes "\<forall>name \<in> set (include_names k s). in_cache st w name"
  shows "snd (replace_includes P st k s w) = w"
proof -
  have "\<forall>name \<in> set (include_names k s). in_cache st w name \<Longrightarrow>
        snd (replace_includes P st k s w) = w"
  proof (induction P st k s w rule: replace_includes.induct)
    case (1 P st skip w)
    then show ?case by simp
  next
    case (2 P st skip c cs w)
    then show ?case by simp
  next
    case (3 P st c cs w)
    show ?case
    proof (cases "match_include (c # cs)")
      case None
      with 3 show ?thesis by (simp add: case_prod_beta)
    next
      case (Some name)
      with "3.prems" have ic: "in_cache st w name" by simp
      then have g: "getFile_nocb P st name w = w" by (simp add: getFile_nocb_def)
      from "3.prems" Some have rest: "\<forall>n \<in> set (include_names
             (length includeBegin + length name + length includeAfter - 1) cs). in_cache st w n"
        by simp
      from "3.IH"(2)[OF Some g[symmetric]] rest g Some show ?thesis
        by (simp add: case_prod_beta)
    qed
  qed
  with assms show ?thesis by simp
qed

text \<open>What \<^verbatim>\<open>getFile\<close> hands to its callback, by the state of the cache.\<close>

lemma getFile_cb_cached:
  "in_cache st w n \<Longrightarrow> pool_own w n = Some t \<Longrightarrow> getFile_cb P st n w = (TText t, w)"
  by (simp add: getFile_cb_def)

lemma getFile_cb_read:
  "\<not> in_cache st w n \<Longrightarrow>
   getFile_cb P st n w =
     (case fs_readFile P (template_path P st n) of
        None \<Rightarrow> (TText [], w\<lparr>readLog := readLog w @ [template_path P st n]\<rparr>)
      | Some tmpl \<Rightarrow> (TText tmpl, pool_put n tmpl (w\<lparr>readLog := readLog w @ [template_path P st n]\<rparr>)))"
  by (simp add: getFile_cb_def Let_def)

text \<open>
  A template that is ready is rendered without a read of the file system
  and without a change of the state.
\<close>

lemma render_ready:
  assumes "ready st u n"
  shows "\<exists>t. pool_own u n = Some t \<and>
           render P st req (NameModel n model) u
             = Inr (render_chunk P (fst (replace_includes P st 0 t u)) model u, u)"
proof -
  from assms obtain t where t: "pool_own u n = Some t" "t \<noteq> []" "templateCache st"
    and inc: "\<forall>name \<in> set (include_names 0 t). in_cache st u name"
    by (auto simp: ready_def split: option.splits)
  from t have ic: "in_cache st u n" by (simp add: in_cache_def)
  from replace_includes_cached[OF inc, of P]
  have sn: "snd (replace_includes P st 0 t u) = u" .
  have "render P st req (NameModel n model) u
             = Inr (render_chunk P (fst (replace_includes P st 0 t u)) model u, u)"
    by (simp add: render_def getTemplate_def getFile_cb_cached[OF ic t(1)] case_prod_beta sn)
  with t(1) show ?thesis by blast
qed

text \<open>
  A render that returns without a read of the file system has found the
  template ready.
\<close>

lemma render_no_read:
  assumes r: "render P st req (NameModel n model) u = Inr (out, u')"
    and l: "readLog u' = readLog u"
  shows "ready st u n"
proof (cases "in_cache st u n")
  case False
  let ?u1 = "u\<lparr>readLog := readLog u @ [template_path P st n]\<rparr>"
  obtain v ua where g: "getFile_cb P st n u = (v, ua)" by (cases "getFile_cb P st n u")
  with False have la: "readLog ua = readLog u @ [template_path P st n]"
    by (auto simp: getFile_cb_read pool_put_def split: option.splits)
  from r g obtain t where "v = TText t" and "u' = snd (replace_includes P st 0 t ua)"
    by (cases v) (auto simp: render_def getTemplate_def case_prod_beta)
  with replace_includes_state[of P st 0 t ua] la
  have "length (readLog u') > length (readLog u)" by simp
  with l show ?thesis by simp
next
  case True
  then have tc: "templateCache st" by (simp add: in_cache_def)
  show ?thesis
  proof (cases "pool_own u n")
    case None
    with True have "getFile_cb P st n u = (TInherited, u)" by (simp add: getFile_cb_def)
    with r show ?thesis by (simp add: render_def getTemplate_def)
  next
    case (Some t)
    with True have ne: "t \<noteq> []" by (simp add: in_cache_def)
    from r getFile_cb_cached[OF True Some, of P]
    have "u' = snd (replace_includes P st 0 t u)"
      by (auto simp: render_def getTemplate_def case_prod_beta)
    with replace_includes_state[of P st 0 t u] l
    have "filter (\<lambda>i. \<not> in_cache st u i) (include_names 0 t) = []" by simp
    then have "\<forall>name \<in> set (include_names 0 t). in_cache st u name"
      by (simp add: filter_empty_conv)
    with tc Some ne show ?thesis by (simp add: ready_def)
  qed
qed

text \<open>
  The state after a render that returns, and the text it has fetched: the
  pool is the one \<^verbatim>\<open>getFile\<close> leaves, and when the template is ready
  afterwards, the text fetched is the text of the pool and the render has
  started no read for an include.
\<close>

lemma render_first:
  assumes r: "render P st req (NameModel n model) w = Inr (out1, w1)"
  shows "templatePool w1 = templatePool (snd (getFile_cb P st n w))
       \<and> (ready st w1 n \<longrightarrow>
            w1 = snd (getFile_cb P st n w)
          \<and> (\<exists>t. pool_own w1 n = Some t
                 \<and> out1 = render_chunk P (fst (replace_includes P st 0 t w1)) model w1))"
proof -
  obtain v wa where g: "getFile_cb P st n w = (v, wa)" by (cases "getFile_cb P st n w")
  from r g obtain t where v: "v = TText t"
    and w1: "w1 = snd (replace_includes P st 0 t wa)"
    and o1: "out1 = render_chunk P (fst (replace_includes P st 0 t wa)) model w1"
    by (cases v) (auto simp: render_def getTemplate_def case_prod_beta)
  from replace_includes_state[of P st 0 t wa] w1
  have pl: "templatePool w1 = templatePool wa" by simp
  have rest: "w1 = wa \<and> (\<exists>t. pool_own w1 n = Some t
                 \<and> out1 = render_chunk P (fst (replace_includes P st 0 t w1)) model w1)"
    if rdy: "ready st w1 n"
  proof -
    from rdy ready_pool[OF pl, of st n] have ra: "ready st wa n" by simp
    then obtain t' where t': "pool_own wa n = Some t'" "t' \<noteq> []" "templateCache st"
      and inc: "\<forall>name \<in> set (include_names 0 t'). in_cache st wa name"
      by (auto simp: ready_def split: option.splits)
    have tt: "t = t'"
    proof (cases "in_cache st w n")
      case True
      with g v have "wa = w" and "pool_own w n = Some t"
        by (auto simp: getFile_cb_def split: option.splits)
      with t' show ?thesis by simp
    next
      case False
      show ?thesis
      proof (cases "fs_readFile P (template_path P st n)")
        case None
        with False g have "templatePool wa = templatePool w"
          by (auto simp: getFile_cb_read)
        with t' have "in_cache st w n"
          by (auto simp: in_cache_def pool_own_def split: if_splits)
        with False show ?thesis by simp
      next
        case (Some tmpl)
        with False g v have "t = tmpl"
          and "templatePool wa = assign (templatePool w) n tmpl"
          by (auto simp: getFile_cb_read pool_put_def)
        with t' show ?thesis by (auto simp: pool_own_def assign_def split: if_splits)
      qed
    qed
    from inc tt replace_includes_cached[of 0 t st wa P] w1 have e: "w1 = wa" by simp
    from t' e o1 tt show ?thesis by simp
  qed
  from pl rest g show ?thesis by simp
qed

text \<open>
  Claim C6, as amended. Let a first render of the template \<open>n\<close> return, in
  the state \<open>w1\<close>. A second render with the same model does without a read of
  the file system and gives the same output exactly when the template is
  ready in \<open>w1\<close>: template caching is on, the pool holds the text of \<open>n\<close>,
  not empty, and every template the include markers of that text name is
  cached. Then the second render gives the output of the first, byte for
  byte, and changes nothing. The template is ready in \<open>w1\<close> exactly when it
  is ready once the first render has fetched its text, before the includes
  are substituted: each include was cached already when the first render
  substituted it. In every other case the second render reads the file
  system again, or throws.
\<close>

theorem render_twice:
  assumes first: "render P st req (NameModel n model) w = Inr (out1, w1)"
  shows "((\<exists>out2 w2. render P st req (NameModel n model) w1 = Inr (out2, w2)
              \<and> readLog w2 = readLog w1 \<and> out2 = out1)
           \<longleftrightarrow> ready st w1 n)
       \<and> (ready st w1 n \<longrightarrow> render P st req (NameModel n model) w1 = Inr (out1, w1))
       \<and> (ready st w1 n \<longleftrightarrow> ready st (snd (getFile_cb P st n w)) n)
       \<and> (\<not> ready st w1 n \<longrightarrow>
            (\<forall>out2 w2. render P st req (NameModel n model) w1 = Inr (out2, w2)
                \<longrightarrow> readLog w2 \<noteq> readLog w1))"
proof -
  note F = render_first[OF first]
  have same: "render P st req (NameModel n model) w1 = Inr (out1, w1)" if rdy: "ready st w1 n"
  proof -
    from F rdy obtain t where t: "pool_own w1 n = Some t"
      and o: "out1 = render_chunk P (fst (replace_includes P st 0 t w1)) model w1"
      by blast
    from render_ready[OF rdy, of P req model] t o show ?thesis by simp
  qed
  have a: "(\<exists>out2 w2. render P st req (NameModel n model) w1 = Inr (out2, w2)
              \<and> readLog w2 = readLog w1 \<and> out2 = out1)
           \<longleftrightarrow> ready st w1 n"
  proof
    assume "\<exists>out2 w2. render P st req (NameModel n model) w1 = Inr (out2, w2)
              \<and> readLog w2 = readLog w1 \<and> out2 = out1"
    then obtain out2 w2 where "render P st req (NameModel n model) w1 = Inr (out2, w2)"
      and "readLog w2 = readLog w1" by blast
    then show "ready st w1 n" by (rule render_no_read)
  next
    assume "ready st w1 n"
    from same[OF this] show "\<exists>out2 w2. render P st req (NameModel n model) w1 = Inr (out2, w2)
              \<and> readLog w2 = readLog w1 \<and> out2 = out1" by simp
  qed
  have b: "ready st w1 n \<longrightarrow> render P st req (NameModel n model) w1 = Inr (out1, w1)"
    using same by blast
  have c: "ready st w1 n \<longleftrightarrow> ready st (snd (getFile_cb P st n w)) n"
    using F ready_pool[of w1 "snd (getFile_cb P st n w)" st n] by simp
  have d: "\<not> ready st w1 n \<longrightarrow>
            (\<forall>out2 w2. render P st req (NameModel n model) w1 = Inr (out2, w2)
                \<longrightarrow> readLog w2 \<noteq> readLog w1)"
    using render_no_read[of P st req n model w1] by blast
  from a b c d show ?thesis by blast
qed

text \<open>
  The claim as stated fails. The first render of \<^verbatim>\<open>page.tmpl\<close> from an empty
  cache, with template caching on, replaces the include that is not cached
  yet by the empty text and only starts its read. A second render made at
  once reads the file system again, for the include; a second render made
  after the read has filled the cache gives another output.
\<close>

theorem render_counterexample:
  "templateCache (Settings [] [])
   \<and> render sample_platform (Settings [] []) (sample_request ''/'' [] [])
         (NameModel ''page.tmpl'' None) new_world = Inr (''Top  end'', sample_rendered_once)
   \<and> render sample_platform (Settings [] []) (sample_request ''/'' [] [])
         (NameModel ''page.tmpl'' None) sample_rendered_once
       = Inr (''Top  end'',
              sample_rendered_once\<lparr>readLog := [''./page.tmpl'', ''./part.tmpl'', ''./part.tmpl''],
                                   pending := [''part.tmpl'', ''part.tmpl'']\<rparr>)
   \<and> render sample_platform (Settings [] []) (sample_request ''/'' [] [])
         (NameModel ''page.tmpl'' None)
         (finish_reads sample_platform (Settings [] []) sample_rendered_once)
       = Inr (''Top PART end'', finish_reads sample_platform (Settings [] []) sample_rendered_once)"
  by (simp add: render_def getTemplate_def getFile_cb_def getFile_nocb_def in_cache_def
      pool_own_def pool_put_def assign_def inherited_def Object_prototype_names_def
      template_path_def charAt_def sample_platform_def Settings_def new_world_def
      sample_rendered_once_def
      match_include_def includeBegin_def includeAfter_def is_name_char_def include_text_def
      render_chunk_def finish_reads_def finish_read_def Let_def)

theorem render_twice_witness:
  "render sample_platform (Settings [] []) (sample_request ''/'' [] []) (NameModel ''part.tmpl'' None)
     new_world
     = Inr (''PART'', new_world\<lparr>templatePool := [''part.tmpl'' \<mapsto> ''PART''], readLog := [''./part.tmpl'']\<rparr>)
   \<and> ready (Settings [] [])
       (new_world\<lparr>templatePool := [''part.tmpl'' \<mapsto> ''PART''], readLog := [''./part.tmpl'']\<rparr>) ''part.tmpl''
   \<and> render sample_platform (Settings [] []) (sample_request ''/'' [] []) (NameModel ''part.tmpl'' None)
       (new_world\<lparr>templatePool := [''part.tmpl'' \<mapsto> ''PART''], readLog := [''./part.tmpl'']\<rparr>)
     = Inr (''PART'', new_world\<lparr>templatePool := [''part.tmpl'' \<mapsto> ''PART''], readLog := [''./part.tmpl'']\<rparr>)"
proof -
  let ?w1 = "new_world\<lparr>templatePool := [''part.tmpl'' \<mapsto> ''PART''], readLog := [''./part.tmpl'']\<rparr>"
  have r: "render sample_platform (Settings [] []) (sample_request ''/'' [] [])
             (NameModel ''part.tmpl'' None) new_world = Inr (''PART'', ?w1)"
    by (simp add: render_def getTemplate_def getFile_cb_def getFile_nocb_def in_cache_def
      pool_own_def pool_put_def assign_def inherited_def Object_prototype_names_def
      template_path_def charAt_def sample_platform_def Settings_def new_world_def
      match_include_def includeBegin_def includeAfter_def is_name_char_def include_text_def
      render_chunk_def Let_def)
  have rdy: "ready (Settings [] []) ?w1 ''part.tmpl''"
    by (simp add: ready_def in_cache_def pool_own_def Settings_def match_include_def
        includeBegin_def includeAfter_def is_name_char_def)
  from render_twice[OF r, THEN conjunct2, THEN conjunct1] rdy r show ?thesis by simp
qed

text \<open>
  How the cache gets ready. A template that is not cached, and that exists
  with a text that is not empty like every template its markers name, is
  ready once it has been rendered and the reads started for its includes
  have called back. From then on its renders are free of reads and
  repeatable, as shown for ready templates.
\<close>

lemma finish_read_pool:
  "pool_own (finish_read P st a w) x =
     (if x = a then (case fs_readFile P (template_path P st a) of
                       Some c \<Rightarrow> (if a = ''__proto__'' then None else Some c)
                     | None \<Rightarrow> pool_own w x)
      else pool_own w x)"
  by (simp add: finish_read_def pool_put_def pool_own_def assign_def split: option.splits)

lemma fold_finish_read_pool:
  "pool_own (fold (finish_read P st) pend w) x =
     (if x \<in> set pend then (case fs_readFile P (template_path P st x) of
                               Some c \<Rightarrow> (if x = ''__proto__'' then None else Some c)
                             | None \<Rightarrow> pool_own w x)
      else pool_own w x)"
proof (induction pend arbitrary: w)
  case Nil
  then show ?case by simp
next
  case (Cons a pend)
  show ?case
    by (simp add: Cons.IH finish_read_pool split: option.splits)
qed

lemma finish_reads_pool:
  "pool_own (finish_reads P st w) x =
     (if x \<in> set (pending w) then (case fs_readFile P (template_path P st x) of
                                       Some c \<Rightarrow> (if x = ''__proto__'' then None else Some c)
                                     | None \<Rightarrow> pool_own w x)
      else pool_own w x)"
proof -
  have "pool_own (w\<lparr>pending := []\<rparr>) x = pool_own w x" by (simp add: pool_own_def)
  then show ?thesis by (simp add: finish_reads_def fold_finish_read_pool split: option.splits)
qed

lemma cold_render_makes_ready:
  assumes tc: "templateCache st"
    and cold: "\<not> in_cache st w n"
    and rd: "fs_readFile P (template_path P st n) = Some t" and ne: "t \<noteq> []"
    and inc: "\<forall>i \<in> set (include_names 0 t).
                \<exists>c. fs_readFile P (template_path P st i) = Some c \<and> c \<noteq> []"
  shows "\<exists>out w1. render P st req (NameModel n model) w = Inr (out, w1)
           \<and> ready st (finish_reads P st w1) n"
proof -
  let ?w1 = "pool_put n t (w\<lparr>readLog := readLog w @ [template_path P st n]\<rparr>)"
  let ?w2 = "snd (replace_includes P st 0 t ?w1)"
  let ?w3 = "finish_reads P st ?w2"
  from cold tc have np: "n \<noteq> ''__proto__''"
    by (auto simp: in_cache_def pool_own_def inherited_def Object_prototype_names_def)
  have gf: "getFile_cb P st n w = (TText t, ?w1)"
    using cold rd by (simp add: getFile_cb_read)
  have r: "render P st req (NameModel n model) w
             = Inr (render_chunk P (fst (replace_includes P st 0 t ?w1)) model ?w2, ?w2)"
    by (simp add: render_def getTemplate_def gf case_prod_beta)
  from replace_includes_state[of P st 0 t ?w1]
  have p2: "templatePool ?w2 = templatePool ?w1"
    and pe: "pending ?w2 = pending ?w1 @ filter (\<lambda>i. \<not> in_cache st ?w1 i) (include_names 0 t)"
    by simp_all
  from p2 have o2: "\<And>x. pool_own ?w2 x = pool_own ?w1 x" by (simp add: pool_own_def)
  have o1: "pool_own ?w1 n = Some t" using np by (simp add: pool_put_def pool_own_def assign_def)
  have pn: "pool_own ?w3 n = Some t"
    using rd np o1 o2 by (simp add: finish_reads_pool)
  have "\<forall>i \<in> set (include_names 0 t). in_cache st ?w3 i"
  proof
    fix i assume i: "i \<in> set (include_names 0 t)"
    from inc i obtain c where c: "fs_readFile P (template_path P st i) = Some c" "c \<noteq> []" by blast
    show "in_cache st ?w3 i"
    proof (cases "i \<in> set (pending ?w2)")
      case True
      with c have "pool_own ?w3 i = (if i = ''__proto__'' then None else Some c)"
        by (simp add: finish_reads_pool)
      with tc c show ?thesis
        by (simp add: in_cache_def inherited_def Object_prototype_names_def)
    next
      case False
      with pe i have ic1: "in_cache st ?w1 i" by auto
      from False have "pool_own ?w3 i = pool_own ?w2 i" by (simp add: finish_reads_pool)
      with o2 have "pool_own ?w3 i = pool_own ?w1 i" by simp
      with ic1 show ?thesis by (simp add: in_cache_def)
    qed
  qed
  with pn tc ne have "ready st ?w3 n" by (simp add: ready_def)
  with r show ?thesis by blast
qed

end
